theory Spec2Isabelle
  imports Complex_Main "HOL-Library.Sublist"
begin

section \<open>JavaScript values, promises and strings\<close>

text \<open>
  The client is JavaScript. The values that flow through the pipeline are JSON values
  (the results of \<^verbatim>\<open>JSON.parse\<close>), \<^verbatim>\<open>undefined\<close>, \<^verbatim>\<open>true\<close> and strings. A number is
  kept by its value only; the sign of zero is not represented (both zeros are falsy).
  Strings are modelled as \<^typ>\<open>string\<close>, one \<^typ>\<open>char\<close> per code unit, which is exact
  for ASCII text.
\<close>

datatype jsnum = Fin rat | PosInf | NegInf | NaN

datatype jsval =
    JUndefined
  | JNull
  | JBool bool
  | JNum jsnum
  | JStr string
  | JArr "jsval list"
  | JObj "(string \<times> jsval) list"

text \<open>Truthiness, as used by \<^verbatim>\<open>this.token && ...\<close>.\<close>

fun truthy :: "jsval \<Rightarrow> bool" where
  "truthy JUndefined = False"
| "truthy JNull = False"
| "truthy (JBool b) = b"
| "truthy (JNum n) = (n \<noteq> Fin 0 \<and> n \<noteq> NaN)"
| "truthy (JStr s) = (s \<noteq> [])"
| "truthy (JArr _) = True"
| "truthy (JObj _) = True"

text \<open>
  The state of a promise once the chain behind it has run to quiescence. A promise
  settles at most once: \<open>Rejected m\<close> is a rejection with an \<^verbatim>\<open>Error\<close> object whose
  message is \<open>m\<close> (every rejection that leaves a stage of this client is such an object),
  \<open>Pending\<close> is a promise that nobody settles any more.
\<close>

datatype outcome = Resolved jsval | Rejected string | Pending

text \<open>
  Inside a \<^verbatim>\<open>new Promise\<close> executor the first call of \<^verbatim>\<open>resolve\<close> or \<^verbatim>\<open>reject\<close>
  wins and every later one is ignored.
\<close>

fun settle :: "outcome \<Rightarrow> outcome \<Rightarrow> outcome" where
  "settle Pending q = q"
| "settle p q = p"

text \<open>\<^verbatim>\<open>Error.prototype.toString\<close> for an \<^verbatim>\<open>Error\<close> with message \<open>m\<close>.\<close>

definition error_toString :: "string \<Rightarrow> string" where
  "error_toString m = (if m = [] then ''Error'' else ''Error: '' @ m)"

text \<open>\<^verbatim>\<open>Number.prototype.toString\<close> on a non-negative integer: its decimal digits.\<close>

definition digit :: "nat \<Rightarrow> char" where
  "digit d = ''0123456789'' ! d"

function toString :: "nat \<Rightarrow> string" where
  "toString n = (if n < 10 then [digit n] else toString (n div 10) @ [digit (n mod 10)])"
  by pat_completeness auto
termination
  by (relation "measure id") auto

declare toString.simps [simp del]

text \<open>\<^verbatim>\<open>String.prototype.trim\<close>, on the ASCII white space and line terminators.\<close>

definition white :: "char \<Rightarrow> bool" where
  "white ch = (ch \<in> set [CHR 0x09, CHR 0x0A, CHR 0x0B, CHR 0x0C, CHR 0x0D, CHR 0x20])"

definition trim :: "string \<Rightarrow> string" where
  "trim s = rev (dropWhile white (rev (dropWhile white s)))"

text \<open>
  \<^verbatim>\<open>s.match(/20[0-9]/) !== null\<close>: the regular expression is not anchored, so it
  searches \<open>s\<close> for a \<open>2\<close>, a \<open>0\<close> and a decimal digit in a row.
\<close>

definition is_digit :: "char \<Rightarrow> bool" where
  "is_digit ch = (ch \<in> set ''0123456789'')"

fun match_20d :: "string \<Rightarrow> bool" where
  "match_20d (a # b # d # s) =
     ((a = CHR ''2'' \<and> b = CHR ''0'' \<and> is_digit d) \<or> match_20d (b # d # s))"
| "match_20d _ = False"

section \<open>The client, its collaborators and the Request Descriptor\<close>

datatype verb = GET | POST | PUT | PATCH | DELETE

text \<open>
  The \<^verbatim>\<open>handler\<close> of a descriptor is one of four bound methods of the client;
  \<^verbatim>\<open>processFile\<close> is bound to its file path.
\<close>

datatype handler = ProcessAuth | ProcessJSON | ProcessFile string | ProcessResponse

text \<open>
  The Request Descriptor \<^verbatim>\<open>r\<close> (\<open>httpMethod\<close> is its \<^verbatim>\<open>method\<close>). \<open>callback\<close> tells
  whether a callback function was supplied; \<open>retry\<close> and \<open>callbackExecuted\<close> are absent
  (falsy) on a fresh descriptor and are only ever assigned \<^verbatim>\<open>true\<close>. The query and the
  headers of a descriptor are left out: the pipeline passes them to the transport and
  never reads them.
\<close>

record descriptor =
  httpMethod :: verb
  path :: string
  body :: "string option"
  handler :: handler
  callback :: bool
  retry :: bool
  callbackExecuted :: bool

text \<open>What the transport resolves with: \<^verbatim>\<open>res.response.statusCode\<close> and \<^verbatim>\<open>res.body\<close>.\<close>

record res =
  statusCode :: nat
  res_body :: string

text \<open>
  A request as it reaches the transport: the verb, the path behind the client's
  \<^verbatim>\<open>endpoint\<close>, the body and the token that the default \<^verbatim>\<open>Authorization\<close> header
  interpolates.
\<close>

record request =
  rq_method :: verb
  rq_path :: string
  rq_body :: "string option"
  rq_bearer :: jsval

text \<open>
  What can be observed of a run, in the order in which it happens: a call of
  \<^verbatim>\<open>authenticate\<close>, a call of \<^verbatim>\<open>executeRequest\<close> on the descriptor of a path, the
  assignment \<^verbatim>\<open>r.retry = true\<close> on the descriptor of a path, and the two ways in which
  a callback is invoked.
\<close>

datatype event =
    EvAuthenticate
  | EvExecute string
  | EvRequeue string
  | EvCallbackOk jsval
  | EvCallbackErr string

text \<open>
  The collaborators that the client does not implement are parameters of the model:
  \<^item> \<open>JSON_parse s\<close> is \<^verbatim>\<open>JSON.parse(s)\<close>: \<open>Inr v\<close> when it returns \<open>v\<close>, \<open>Inl t\<close> when it
    throws an exception whose string conversion is \<open>t\<close>;
  \<^item> \<open>transport n rq\<close> is what the HTTP client answers to the \<open>n\<close>-th request that
    this client sends (counted from 0): \<open>Inr res\<close>, or \<open>Inl m\<close> when it rejects with an
    \<^verbatim>\<open>Error\<close> of message \<open>m\<close> (connection error, timeout);
  \<^item> \<open>writeFile fp data\<close> is the error of \<^verbatim>\<open>fs.writeFile(fp, data, ...)\<close>, if any, as
    converted to a string;
  \<^item> \<open>callback_throws ev\<close> is what the caller's callback function does when it is invoked
    as the event \<open>ev\<close> records: \<open>None\<close> when it returns, \<open>Some x\<close> when
    it throws, \<open>x\<close> being the message of the \<^verbatim>\<open>Error\<close> thrown;
  \<^item> \<open>endpoint\<close> and \<open>credentials\<close> (the form data built from the id and the secret)
    are fixed at construction.
\<close>

record env =
  JSON_parse :: "string \<Rightarrow> string + jsval"
  transport :: "nat \<Rightarrow> request \<Rightarrow> string + res"
  writeFile :: "string \<Rightarrow> string \<Rightarrow> string option"
  callback_throws :: "event \<Rightarrow> string option"
  endpoint :: string
  credentials :: string

text \<open>
  The mutable state: the Token Store \<^verbatim>\<open>this.token\<close>, the files on disk, and two logs
  that the code does not keep but that the properties speak about (the requests sent
  and the events).
\<close>

record client =
  token :: jsval
  files :: "string \<rightharpoonup> string"
  sent :: "request list"
  trace :: "event list"

definition emit :: "event \<Rightarrow> client \<Rightarrow> client" where
  "emit ev c = c\<lparr>trace := trace c @ [ev]\<rparr>"

section \<open>Response Handlers\<close>

definition bad_response :: "nat \<Rightarrow> string \<Rightarrow> string" where
  "bad_response status b =
     ''Bad Response From API: Status Code '' @ toString status @ '' | '' @ b"

text \<open>
  \<^verbatim>\<open>process(res, parser)\<close>. A status that does not match rejects the promise, and the
  parser is called all the same (there is no \<^verbatim>\<open>return\<close> after \<^verbatim>\<open>reject\<close>); what the
  parser settles afterwards is ignored, what it does to the disk is not. The
  \<^verbatim>\<open>catch\<close> branch needs a response without a status code or body, which the
  transport never produces.
\<close>

definition process ::
  "res \<Rightarrow> (string \<Rightarrow> client \<Rightarrow> client \<times> outcome) \<Rightarrow> client \<Rightarrow> client \<times> outcome" where
  "process r parser c =
     (let status = statusCode r;
          p = (if \<not> match_20d (toString status)
               then Rejected (bad_response status (res_body r)) else Pending);
          (c', q) = parser (trim (res_body r)) c
      in (c', settle p q))"

definition parseJSON :: "env \<Rightarrow> string \<Rightarrow> client \<Rightarrow> client \<times> outcome" where
  "parseJSON e b c =
     (if b \<noteq> [] then
        (case JSON_parse e b of
           Inr v \<Rightarrow> (c, Resolved v)
         | Inl t \<Rightarrow> (c, Rejected (''Error Parsing JSON Response: '' @ t)))
      else (c, Resolved (JBool True)))"

definition parseResponse :: "string \<Rightarrow> client \<Rightarrow> client \<times> outcome" where
  "parseResponse b c = (if b \<noteq> [] then (c, Resolved (JStr b)) else (c, Resolved (JBool True)))"

text \<open>
  \<^verbatim>\<open>saveToFile(filepath, body, resolve, reject)\<close>. The write is asynchronous in the
  source; the model performs it at once. A write that fails is taken to leave the
  disk as it was.
\<close>

definition saveToFile :: "env \<Rightarrow> string \<Rightarrow> string \<Rightarrow> client \<Rightarrow> client \<times> outcome" where
  "saveToFile e filepath b c =
     (case writeFile e filepath b of
        Some err \<Rightarrow> (c, Rejected (''Error Saving Response to File. '' @ err))
      | None \<Rightarrow> (c\<lparr>files := (files c)(filepath \<mapsto> b)\<rparr>,
                 Resolved (JStr (''Results saved to '' @ filepath @ ''.''))))"

definition processJSON :: "env \<Rightarrow> res \<Rightarrow> client \<Rightarrow> client \<times> outcome" where
  "processJSON e r c = process r (parseJSON e) c"

definition processFile :: "env \<Rightarrow> string \<Rightarrow> res \<Rightarrow> client \<Rightarrow> client \<times> outcome" where
  "processFile e filepath r c = process r (saveToFile e filepath) c"

definition processResponse :: "res \<Rightarrow> client \<Rightarrow> client \<times> outcome" where
  "processResponse r c = process r parseResponse c"

text \<open>
  \<^verbatim>\<open>response.access_token\<close>: reading a property of \<^verbatim>\<open>null\<close> throws (\<open>None\<close>), an
  object gives the property or \<^verbatim>\<open>undefined\<close>, and every other JSON value gives
  \<^verbatim>\<open>undefined\<close>.
\<close>

fun access_token :: "jsval \<Rightarrow> jsval option" where
  "access_token JNull = None"
| "access_token JUndefined = None"
| "access_token (JObj kvs) =
     (case map_of kvs ''access_token'' of Some v \<Rightarrow> Some v | None \<Rightarrow> Some JUndefined)"
| "access_token _ = Some JUndefined"

text \<open>
  \<^verbatim>\<open>processAuth(res)\<close>: the body is parsed whatever the status code is, the token is
  assigned before the promise resolves, and any exception of the \<^verbatim>\<open>try\<close> block
  rejects with a fixed message.
\<close>

definition processAuth :: "env \<Rightarrow> res \<Rightarrow> client \<Rightarrow> client \<times> outcome" where
  "processAuth e r c =
     (case JSON_parse e (res_body r) of
        Inl t \<Rightarrow> (c, Rejected ''Error Retrieving Session Token from Authentication Response!'')
      | Inr response \<Rightarrow>
          (case access_token response of
             None \<Rightarrow> (c, Rejected ''Error Retrieving Session Token from Authentication Response!'')
           | Some t \<Rightarrow> (c\<lparr>token := t\<rparr>, Resolved t)))"

fun apply_handler :: "env \<Rightarrow> handler \<Rightarrow> res \<Rightarrow> client \<Rightarrow> client \<times> outcome" where
  "apply_handler e ProcessAuth r c = processAuth e r c"
| "apply_handler e ProcessJSON r c = processJSON e r c"
| "apply_handler e (ProcessFile filepath) r c = processFile e filepath r c"
| "apply_handler e ProcessResponse r c = processResponse r c"

section \<open>The request pipeline\<close>

text \<open>Stage 1, \<^verbatim>\<open>checkAuthentication(r)\<close>: \<open>True\<close> when the promise resolves.\<close>

definition checkAuthentication :: "client \<Rightarrow> descriptor \<Rightarrow> bool" where
  "checkAuthentication c r = ((truthy (token c) \<and> \<not> retry r) \<or> path r = ''/oauth2/token'')"

text \<open>The descriptor that \<^verbatim>\<open>authenticate(callback)\<close> builds.\<close>

definition auth_descriptor :: "env \<Rightarrow> bool \<Rightarrow> descriptor" where
  "auth_descriptor e cb =
     \<lparr>httpMethod = POST, path = ''/oauth2/token'', body = Some (credentials e),
      handler = ProcessAuth, callback = cb, retry = False, callbackExecuted = False\<rparr>"

text \<open>
  \<^verbatim>\<open>request(method, req)\<close> and the verb methods above and below it: the request is
  built from the descriptor and the current token and handed to the transport.
\<close>

definition request :: "env \<Rightarrow> descriptor \<Rightarrow> client \<Rightarrow> client \<times> (string + res)" where
  "request e r c =
     (let rq = \<lparr>rq_method = httpMethod r, rq_path = endpoint e @ path r,
                rq_body = body r, rq_bearer = token c\<rparr>
      in (c\<lparr>sent := sent c @ [rq]\<rparr>, transport e (length (sent c)) rq))"

text \<open>Stage 3, \<^verbatim>\<open>executeRequest(r)\<close>: the transport, then the descriptor's handler.\<close>

definition executeRequest :: "env \<Rightarrow> descriptor \<Rightarrow> client \<Rightarrow> client \<times> outcome" where
  "executeRequest e r c =
     (case request e r (emit (EvExecute (path r)) c) of
        (c1, Inl m) \<Rightarrow> (c1, Rejected m)
      | (c1, Inr rs) \<Rightarrow> apply_handler e (handler r) rs c1)"

text \<open>
  Stage 5. \<^verbatim>\<open>resolveRequest(r, resolve, res)\<close> marks and invokes a callback that is due
  and then calls \<^verbatim>\<open>resolve(res)\<close>; when the callback throws, \<^verbatim>\<open>resolve\<close> is not
  reached and the exception leaves the function. The result is the descriptor and the
  client as the function leaves them, and the exception, if any.
\<close>

definition resolveRequest ::
  "env \<Rightarrow> descriptor \<Rightarrow> jsval \<Rightarrow> client \<Rightarrow> descriptor \<times> client \<times> string option" where
  "resolveRequest e r v c =
     (if callback r \<and> \<not> callbackExecuted r
      then (r\<lparr>callbackExecuted := True\<rparr>, emit (EvCallbackOk v) c,
            callback_throws e (EvCallbackOk v))
      else (r, c, None))"

text \<open>
  \<^verbatim>\<open>rejectRequest(r, reject, err)\<close> marks and invokes a callback that is due, or else
  calls \<^verbatim>\<open>reject(err)\<close>. It is the last link of the chain: whether the callback returns
  or throws, nothing settles the promise of \<^verbatim>\<open>criteoApiRequest\<close> any more. The result is
  the descriptor, the client and the state of that promise.
\<close>

definition rejectRequest :: "descriptor \<Rightarrow> string \<Rightarrow> client \<Rightarrow> descriptor \<times> client \<times> outcome" where
  "rejectRequest r err c =
     (if callback r \<and> \<not> callbackExecuted r
      then (r\<lparr>callbackExecuted := True\<rparr>, emit (EvCallbackErr err) c, Pending)
      else (r, c, Rejected err))"

text \<open>
  \<^verbatim>\<open>criteoApiRequest(r)\<close>, \<^verbatim>\<open>authenticate()\<close> as the pipeline calls it (its argument
  is the rejection value of stage 1, \<^verbatim>\<open>undefined\<close>, so the descriptor has no
  callback) and stage 4, \<^verbatim>\<open>decideWhetherToRequeue(r, err)\<close>. Each link of the promise
  chain is one line: \<^verbatim>\<open>.catch(f)\<close> runs \<open>f\<close> on a rejection and passes a resolution on,
  \<^verbatim>\<open>.then(f)\<close> does the opposite, and nothing runs behind a promise that stays pending.
  An exception that leaves \<^verbatim>\<open>resolveRequest\<close> rejects the promise of its link, so the
  last link runs \<^verbatim>\<open>rejectRequest\<close> on it. The descriptor is a mutable object in the
  source, so each function returns it.
\<close>

function criteoApiRequest :: "env \<Rightarrow> descriptor \<Rightarrow> client \<Rightarrow> descriptor \<times> client \<times> outcome"
  and authenticate :: "env \<Rightarrow> client \<Rightarrow> client \<times> outcome"
  and decideWhetherToRequeue ::
    "env \<Rightarrow> descriptor \<Rightarrow> string \<Rightarrow> client \<Rightarrow> descriptor \<times> client \<times> outcome"
where
  "criteoApiRequest e r c =
     (let (c1, p1) = (if checkAuthentication c r then (c, Resolved JUndefined)
                      else authenticate e c);
          (c2, p2) = (case p1 of Resolved _ \<Rightarrow> executeRequest e r c1 | _ \<Rightarrow> (c1, p1));
          (r3, c3, p3) = (case p2 of Rejected err \<Rightarrow> decideWhetherToRequeue e r err c2
                          | _ \<Rightarrow> (r, c2, p2))
      in (case p3 of
            Resolved v \<Rightarrow>
              (let (r4, c4, thrown) = resolveRequest e r3 v c3
               in case thrown of None \<Rightarrow> (r4, c4, Resolved v)
                  | Some x \<Rightarrow> rejectRequest r4 x c4)
          | Rejected err \<Rightarrow> rejectRequest r3 err c3
          | Pending \<Rightarrow> (r3, c3, Pending)))"
| "authenticate e c =
     (let (ra, c', p) = criteoApiRequest e (auth_descriptor e False) (emit EvAuthenticate c)
      in (c', p))"
| "decideWhetherToRequeue e r err c =
     (if sublist ''401'' (error_toString err) \<and> \<not> retry r
      then criteoApiRequest e (r\<lparr>retry := True\<rparr>) (emit (EvRequeue (path r)) c)
      else (r, c, Rejected err))"
  by pat_completeness auto
termination
  by (relation "measure (\<lambda>x. case x of
        Inl (e, r, c) \<Rightarrow> (if path r = ''/oauth2/token'' then 0 else 5) + (if retry r then 1 else 3)
      | Inr (Inl (e, c)) \<Rightarrow> 4
      | Inr (Inr (e, r, err, c)) \<Rightarrow>
          (if path r = ''/oauth2/token'' then 0 else 5) + (if retry r then 0 else 2))")
    (auto simp: checkAuthentication_def auth_descriptor_def)

declare criteoApiRequest.simps [simp del]
declare authenticate.simps [simp del]
declare decideWhetherToRequeue.simps [simp del]

text \<open>
  Parts of the chain of \<^verbatim>\<open>criteoApiRequest\<close> by themselves: stages 1 to 3 (the gate,
  \<^verbatim>\<open>.catch(authenticate)\<close> and \<^verbatim>\<open>.then(executeRequest)\<close>), which make one attempt at the
  request; the last attempt of a run, which is the first one, or the second one when
  the first one fails and the test of \<^verbatim>\<open>decideWhetherToRequeue\<close> sends the descriptor
  through the pipeline again; and stage 5 (the last two links).
\<close>

definition attempt :: "env \<Rightarrow> descriptor \<Rightarrow> client \<Rightarrow> client \<times> outcome" where
  "attempt e r c =
     (let (c1, p1) = (if checkAuthentication c r then (c, Resolved JUndefined)
                      else authenticate e c)
      in case p1 of Resolved _ \<Rightarrow> executeRequest e r c1 | _ \<Rightarrow> (c1, p1))"

definition last_attempt :: "env \<Rightarrow> descriptor \<Rightarrow> client \<Rightarrow> client \<times> outcome" where
  "last_attempt e r c =
     (let (c2, p2) = attempt e r c
      in case p2 of
           Rejected err \<Rightarrow>
             (if sublist ''401'' (error_toString err) \<and> \<not> retry r
              then attempt e (r\<lparr>retry := True\<rparr>) (emit (EvRequeue (path r)) c2)
              else (c2, p2))
         | _ \<Rightarrow> (c2, p2))"

definition stage5 ::
  "env \<Rightarrow> descriptor \<Rightarrow> client \<Rightarrow> outcome \<Rightarrow> descriptor \<times> client \<times> outcome" where
  "stage5 e r3 c3 p3 =
     (case p3 of
        Resolved v \<Rightarrow>
          (let (r4, c4, thrown) = resolveRequest e r3 v c3
           in case thrown of None \<Rightarrow> (r4, c4, Resolved v)
              | Some x \<Rightarrow> rejectRequest r4 x c4)
      | Rejected err \<Rightarrow> rejectRequest r3 err c3
      | Pending \<Rightarrow> (r3, c3, Pending))"

section \<open>Observing a run\<close>

text \<open>The events that a step adds to the log, and the events that are callback invocations.\<close>

definition new_events :: "client \<Rightarrow> client \<Rightarrow> event list" where
  "new_events c c' = drop (length (trace c)) (trace c')"

fun is_callback :: "event \<Rightarrow> bool" where
  "is_callback (EvCallbackOk _) = True"
| "is_callback (EvCallbackErr _) = True"
| "is_callback _ = False"

text \<open>
  What a run of each of the three mutually recursive functions guarantees, as used in
  the induction over them: the log only grows, the pipeline changes no field of the
  descriptor but \<open>retry\<close> and \<open>callbackExecuted\<close>, and a callback that is due fires once.
\<close>

definition frame :: "descriptor \<Rightarrow> descriptor \<Rightarrow> bool" where
  "frame r r' = (httpMethod r' = httpMethod r \<and> path r' = path r \<and> body r' = body r \<and>
     handler r' = handler r \<and> callback r' = callback r)"

definition cb_post ::
  "env \<Rightarrow> descriptor \<Rightarrow> descriptor \<Rightarrow> outcome \<Rightarrow> event list \<Rightarrow> bool" where
  "cb_post e r r' p evs =
     (if callback r \<and> \<not> callbackExecuted r
      then callbackExecuted r' \<and>
           ((\<exists>v. filter is_callback evs = [EvCallbackOk v] \<and>
                 p = (case callback_throws e (EvCallbackOk v) of
                        None \<Rightarrow> Resolved v | Some x \<Rightarrow> Rejected x)) \<or>
            (\<exists>m. p = Pending \<and> filter is_callback evs = [EvCallbackErr m]))
      else callbackExecuted r' = callbackExecuted r \<and> p \<noteq> Pending \<and>
           filter is_callback evs = [])"

definition run_post ::
  "env \<Rightarrow> descriptor \<Rightarrow> client \<Rightarrow> descriptor \<times> client \<times> outcome \<Rightarrow> bool" where
  "run_post e r c x = (case x of (r', c', p) \<Rightarrow>
     (\<exists>evs. trace c' = trace c @ evs \<and> frame r r' \<and> (retry r \<longrightarrow> retry r') \<and>
        cb_post e r r' p evs))"

definition auth_post :: "client \<Rightarrow> client \<times> outcome \<Rightarrow> bool" where
  "auth_post c x = (case x of (c', p) \<Rightarrow>
     (\<exists>evs. trace c' = trace c @ evs \<and> filter is_callback evs = [] \<and> p \<noteq> Pending))"

definition decide_post ::
  "env \<Rightarrow> descriptor \<Rightarrow> string \<Rightarrow> client \<Rightarrow> descriptor \<times> client \<times> outcome \<Rightarrow> bool" where
  "decide_post e r err c x =
     (x = (r, c, Rejected err) \<or> (retry (fst x) \<and> run_post e r c x))"

text \<open>
  The events of a run, counted. The events of the token exchange are those that carry
  the path of the authentication endpoint (and the callback events, which that exchange
  never has). \<open>grows\<close> says that a step only appends to the log.
\<close>

fun token_event :: "event \<Rightarrow> bool" where
  "token_event (EvExecute q) = (q = ''/oauth2/token'')"
| "token_event (EvRequeue q) = (q = ''/oauth2/token'')"
| "token_event EvAuthenticate = False"
| "token_event _ = True"

definition ev_post :: "descriptor \<Rightarrow> client \<Rightarrow> descriptor \<Rightarrow> event list \<Rightarrow> bool" where
  "ev_post r c r' evs =
     (count_list evs (EvRequeue (path r)) = (if retry r' \<and> \<not> retry r then 1 else 0) \<and>
      count_list evs (EvExecute (path r)) \<le> 1 + count_list evs (EvRequeue (path r)) \<and>
      (if path r = ''/oauth2/token'' then list_all token_event evs
       else count_list evs EvAuthenticate =
              (if checkAuthentication c r then 0 else 1) + count_list evs (EvRequeue (path r))))"

definition run_ev :: "descriptor \<Rightarrow> client \<Rightarrow> descriptor \<times> client \<times> outcome \<Rightarrow> bool" where
  "run_ev r c x = (case x of (r', c', p) \<Rightarrow> ev_post r c r' (new_events c c'))"

definition auth_ev :: "client \<Rightarrow> client \<times> outcome \<Rightarrow> bool" where
  "auth_ev c x = (case x of (c', p) \<Rightarrow>
     (\<exists>evs. new_events c c' = EvAuthenticate # evs \<and> list_all token_event evs))"

definition decide_ev ::
  "descriptor \<Rightarrow> string \<Rightarrow> client \<Rightarrow> descriptor \<times> client \<times> outcome \<Rightarrow> bool" where
  "decide_ev r err c x = (case x of (r', c', p) \<Rightarrow>
     (x = (r, c, Rejected err) \<or>
      (\<not> retry r \<and> retry r' \<and>
       (\<exists>evs. new_events c c' = EvRequeue (path r) # evs \<and>
          ev_post (r\<lparr>retry := True\<rparr>) (emit (EvRequeue (path r)) c) r' evs))))"

definition grows :: "client \<Rightarrow> client \<Rightarrow> bool" where
  "grows c c' = prefix (trace c) (trace c')"

section \<open>Sample collaborators\<close>

text \<open>
  Concrete collaborators on which the model is evaluated: a \<^verbatim>\<open>JSON.parse\<close> that knows
  three documents and throws on everything else, a transport that answers from a list
  and times out when the list is exhausted, a disk that never fails, a callback that
  returns, a client with a given token and a descriptor as \<^verbatim>\<open>getAdvertiserPortfolio\<close> builds it.
\<close>

definition sample_parse :: "string \<Rightarrow> string + jsval" where
  \<open>sample_parse s =
     (if s = ''{"access_token":"T1"}'' then Inr (JObj [(''access_token'', JStr ''T1'')])
      else if s = ''{"data":[]}'' then Inr (JObj [(''data'', JArr [])])
      else if s = ''{"error":"invalid_client"}''
        then Inr (JObj [(''error'', JStr ''invalid_client'')])
      else Inl ''SyntaxError: Unexpected token in JSON'')\<close>

definition replies :: "(string + res) list \<Rightarrow> nat \<Rightarrow> request \<Rightarrow> string + res" where
  "replies xs n rq =
     (if n < length xs then xs ! n else Inl ''Request timed out after 12000 ms.'')"

definition sample_env :: "(nat \<Rightarrow> request \<Rightarrow> string + res) \<Rightarrow> env" where
  "sample_env t =
     \<lparr>JSON_parse = sample_parse, transport = t, writeFile = (\<lambda>_ _. None),
      callback_throws = (\<lambda>_. None), endpoint = '''',
      credentials = ''client_id=id&client_secret=secret&grant_type=client_credentials''\<rparr>"

definition sample_client :: "jsval \<Rightarrow> client" where
  "sample_client t = \<lparr>token = t, files = Map.empty, sent = [], trace = []\<rparr>"

definition sample_request :: "bool \<Rightarrow> descriptor" where
  "sample_request cb =
     \<lparr>httpMethod = GET, path = ''/2021-01/advertisers/me'', body = None,
      handler = ProcessJSON, callback = cb, retry = False, callbackExecuted = False\<rparr>"

section \<open>Properties of the Response Handlers\<close>

subsection \<open>The status check\<close>

lemma lt10: "(d::nat) < 10 \<longleftrightarrow> d \<in> {0,1,2,3,4,5,6,7,8,9}"
  by auto

lemma digit_inj: "a < 10 \<Longrightarrow> b < 10 \<Longrightarrow> digit a = digit b \<longleftrightarrow> a = b"
  unfolding lt10 digit_def by auto

lemma is_digit_digit: "d < 10 \<Longrightarrow> is_digit (digit d)"
  unfolding lt10 is_digit_def digit_def by auto

lemma digit_2: "digit 2 = CHR ''2''"
  by (simp add: digit_def)

lemma digit_0: "digit 0 = CHR ''0''"
  by (simp add: digit_def)

lemma toString_3:
  assumes "100 \<le> n" "n \<le> 999"
  shows "toString n = [digit (n div 100), digit (n div 10 mod 10), digit (n mod 10)]"
proof -
  have e: "n div 10 div 10 = n div 100"
    by (simp add: div_mult2_eq[symmetric])
  have a: "toString n = toString (n div 10) @ [digit (n mod 10)]"
    using assms by (subst toString.simps) simp
  have b: "toString (n div 10) = toString (n div 100) @ [digit (n div 10 mod 10)]"
    using assms by (subst toString.simps) (simp add: e)
  have c: "toString (n div 100) = [digit (n div 100)]"
    using assms by (subst toString.simps) simp
  show ?thesis by (simp add: a b c)
qed

lemma two_digits: "(q::nat) = 10 * a + b \<Longrightarrow> b < 10 \<Longrightarrow> (a = 2 \<and> b = 0) = (q = 20)"
  by arith

lemma div10_20: "((n::nat) div 10 = 20) = (200 \<le> n \<and> n \<le> 209)"
  by arith

text \<open>On a three-digit status code the regular expression matches 200 to 209 and nothing else.\<close>

lemma match_3digit:
  assumes "100 \<le> n" "n \<le> 999"
  shows "match_20d (toString n) \<longleftrightarrow> 200 \<le> n \<and> n \<le> 209"
proof -
  have d1: "n div 100 < 10" "n div 10 mod 10 < 10" "n mod 10 < 10"
    using assms by auto
  have "match_20d (toString n) \<longleftrightarrow> n div 100 = 2 \<and> n div 10 mod 10 = 0"
    using d1 by (simp add: toString_3[OF assms] digit_2[symmetric] digit_0[symmetric]
        digit_inj is_digit_digit)
  also have "\<dots> \<longleftrightarrow> n div 10 = 20"
  proof -
    have "n div 10 = 10 * (n div 10 div 10) + n div 10 mod 10" by simp
    moreover have "n div 10 div 10 = n div 100" by (simp add: div_mult2_eq[symmetric])
    ultimately have "n div 10 = 10 * (n div 100) + n div 10 mod 10" by simp
    then show ?thesis using d1(2) by (rule two_digits)
  qed
  also have "\<dots> \<longleftrightarrow> 200 \<le> n \<and> n \<le> 209" by (rule div10_20)
  finally show ?thesis .
qed

lemma toString_examples:
  "toString 200 = ''200''" "toString 204 = ''204''" "toString 299 = ''299''"
  "toString 300 = ''300''" "toString 401 = ''401''" "toString 500 = ''500''"
  by (simp_all add: toString.simps digit_def)

lemma bad_response_neq [simp]: "CHR ''E'' # t \<noteq> bad_response n b"
  by (simp add: bad_response_def)

lemma process_accepted:
  "match_20d (toString (statusCode rs)) \<Longrightarrow> process rs parser c = parser (trim (res_body rs)) c"
  by (simp add: process_def split: prod.splits)

lemma process_rejected:
  "\<not> match_20d (toString (statusCode rs)) \<Longrightarrow>
   process rs parser c =
     (fst (parser (trim (res_body rs)) c), Rejected (bad_response (statusCode rs) (res_body rs)))"
  by (simp add: process_def split: prod.splits)

lemma parsers_not_status_error:
  "snd (parseJSON e b c) \<noteq> Rejected (bad_response n b')"
  "snd (parseResponse b c) \<noteq> Rejected (bad_response n b')"
  "snd (saveToFile e fp b c) \<noteq> Rejected (bad_response n b')"
  by (simp_all add: parseJSON_def parseResponse_def saveToFile_def split: sum.splits option.splits)

text \<open>
  C1, as stated, fails: the three handlers reject status 299, with the status error.
\<close>

theorem status_299_rejected:
  "\<forall>e c filepath.
     snd (apply_handler e ProcessJSON \<lparr>statusCode = 299, res_body = ''ok''\<rparr> c)
       = Rejected ''Bad Response From API: Status Code 299 | ok''
   \<and> snd (apply_handler e ProcessResponse \<lparr>statusCode = 299, res_body = ''ok''\<rparr> c)
       = Rejected ''Bad Response From API: Status Code 299 | ok''
   \<and> snd (apply_handler e (ProcessFile filepath) \<lparr>statusCode = 299, res_body = ''ok''\<rparr> c)
       = Rejected ''Bad Response From API: Status Code 299 | ok''"
  by (simp add: processJSON_def processFile_def processResponse_def process_def
        toString_examples bad_response_def split: prod.splits)

text \<open>
  C1, amended. For every raw response with a three-digit status code fed to any of the
  three response handlers (JSON, Raw, File), the handler rejects with the status error,
  which carries the status code and the raw body, exactly when the status code lies
  outside 200-209; inside 200-209 the response is accepted, that is, the outcome is the
  one of the handler's parser on the trimmed body.
\<close>

theorem status_check:
  assumes "100 \<le> statusCode rs" and "statusCode rs \<le> 999" and "h \<noteq> ProcessAuth"
  shows "(snd (apply_handler e h rs c) = Rejected (bad_response (statusCode rs) (res_body rs))
            \<longleftrightarrow> \<not> (200 \<le> statusCode rs \<and> statusCode rs \<le> 209))
       \<and> (200 \<le> statusCode rs \<and> statusCode rs \<le> 209 \<longrightarrow>
            apply_handler e h rs c =
              (case h of
                 ProcessJSON \<Rightarrow> parseJSON e (trim (res_body rs)) c
               | ProcessFile filepath \<Rightarrow> saveToFile e filepath (trim (res_body rs)) c
               | ProcessResponse \<Rightarrow> parseResponse (trim (res_body rs)) c
               | ProcessAuth \<Rightarrow> processAuth e rs c))"
proof (cases "200 \<le> statusCode rs \<and> statusCode rs \<le> 209")
  case True
  then have m: "match_20d (toString (statusCode rs))"
    using match_3digit[OF assms(1,2)] by simp
  show ?thesis using True assms(3)
    by (cases h) (simp_all add: processJSON_def processFile_def processResponse_def
          process_accepted[OF m] parsers_not_status_error)
next
  case False
  then have m: "\<not> match_20d (toString (statusCode rs))"
    using match_3digit[OF assms(1,2)] by simp
  show ?thesis using False assms(3)
    by (cases h) (auto simp: processJSON_def processFile_def processResponse_def
          process_rejected[OF m])
qed

text \<open>
  The instances that the claim names and the code agrees with: 200 and 204 are accepted,
  300, 401 and 500 are rejected.
\<close>

theorem status_check_witness:
  "\<forall>e c. (100::nat) \<le> 204 \<and> (204::nat) \<le> 999 \<and> ProcessResponse \<noteq> ProcessAuth
     \<and> apply_handler e ProcessResponse \<lparr>statusCode = 204, res_body = ''''\<rparr> c
          = (c, Resolved (JBool True))
     \<and> apply_handler e ProcessResponse \<lparr>statusCode = 200, res_body = ''a''\<rparr> c
          = (c, Resolved (JStr ''a''))
     \<and> snd (apply_handler e ProcessResponse \<lparr>statusCode = 300, res_body = ''a''\<rparr> c)
          = Rejected ''Bad Response From API: Status Code 300 | a''
     \<and> snd (apply_handler e ProcessResponse \<lparr>statusCode = 401, res_body = ''a''\<rparr> c)
          = Rejected ''Bad Response From API: Status Code 401 | a''
     \<and> snd (apply_handler e ProcessResponse \<lparr>statusCode = 500, res_body = ''a''\<rparr> c)
          = Rejected ''Bad Response From API: Status Code 500 | a''"
proof (intro allI)
  fix e c
  have h: "ProcessResponse \<noteq> ProcessAuth" by simp
  note t = status_check[where h = ProcessResponse and e = e and c = c, OF _ _ h]
  show "(100::nat) \<le> 204 \<and> (204::nat) \<le> 999 \<and> ProcessResponse \<noteq> ProcessAuth
     \<and> apply_handler e ProcessResponse \<lparr>statusCode = 204, res_body = ''''\<rparr> c
          = (c, Resolved (JBool True))
     \<and> apply_handler e ProcessResponse \<lparr>statusCode = 200, res_body = ''a''\<rparr> c
          = (c, Resolved (JStr ''a''))
     \<and> snd (apply_handler e ProcessResponse \<lparr>statusCode = 300, res_body = ''a''\<rparr> c)
          = Rejected ''Bad Response From API: Status Code 300 | a''
     \<and> snd (apply_handler e ProcessResponse \<lparr>statusCode = 401, res_body = ''a''\<rparr> c)
          = Rejected ''Bad Response From API: Status Code 401 | a''
     \<and> snd (apply_handler e ProcessResponse \<lparr>statusCode = 500, res_body = ''a''\<rparr> c)
          = Rejected ''Bad Response From API: Status Code 500 | a''"
    using t[of "\<lparr>statusCode = 204, res_body = ''''\<rparr>"]
          t[of "\<lparr>statusCode = 200, res_body = ''a''\<rparr>"]
          t[of "\<lparr>statusCode = 300, res_body = ''a''\<rparr>"]
          t[of "\<lparr>statusCode = 401, res_body = ''a''\<rparr>"]
          t[of "\<lparr>statusCode = 500, res_body = ''a''\<rparr>"]
    by (simp add: parseResponse_def trim_def white_def bad_response_def toString_examples)
qed

subsection \<open>The JSON handler\<close>

text \<open>
  On an accepted response, the JSON handler resolves with \<^verbatim>\<open>true\<close> when the trimmed body
  is empty, and otherwise with the very value that \<^verbatim>\<open>JSON.parse\<close> returns for the
  trimmed body. Whether that value survives serialisation and parsing is a property of
  \<^verbatim>\<open>JSON.parse\<close> and \<^verbatim>\<open>JSON.stringify\<close> on floating-point numbers, and the client
  implements neither.
\<close>

lemma processJSON_accepted:
  assumes "match_20d (toString (statusCode rs))"
  shows "trim (res_body rs) = [] \<Longrightarrow> processJSON e rs c = (c, Resolved (JBool True))"
    and "trim (res_body rs) \<noteq> [] \<Longrightarrow> JSON_parse e (trim (res_body rs)) = Inr v \<Longrightarrow>
         processJSON e rs c = (c, Resolved v)"
  using assms by (simp_all add: processJSON_def process_accepted parseJSON_def)

subsection \<open>The File handler\<close>

text \<open>
  C10. For every response processed with the File handler whose status code fails the
  acceptance check, the call fails with the status error, and the disk is left as
  \<^verbatim>\<open>saveToFile\<close> leaves it: the (trimmed) body is written to the caller's file path
  whenever the write itself succeeds.
\<close>

theorem file_written_despite_status_error:
  assumes "\<not> match_20d (toString (statusCode rs))"
  shows "snd (processFile e filepath rs c) = Rejected (bad_response (statusCode rs) (res_body rs))
       \<and> fst (processFile e filepath rs c) = fst (saveToFile e filepath (trim (res_body rs)) c)
       \<and> (writeFile e filepath (trim (res_body rs)) = None \<longrightarrow>
            files (fst (processFile e filepath rs c)) filepath = Some (trim (res_body rs)))"
  using assms by (simp add: processFile_def process_rejected saveToFile_def)

theorem file_written_despite_status_error_witness:
  "\<not> match_20d (toString (statusCode \<lparr>statusCode = 500, res_body = ''oops  ''\<rparr>))
   \<and> snd (processFile (sample_env (replies [])) ''report.csv''
            \<lparr>statusCode = 500, res_body = ''oops  ''\<rparr> (sample_client (JStr ''T0'')))
       = Rejected ''Bad Response From API: Status Code 500 | oops  ''
   \<and> files (fst (processFile (sample_env (replies [])) ''report.csv''
            \<lparr>statusCode = 500, res_body = ''oops  ''\<rparr> (sample_client (JStr ''T0''))))
        ''report.csv'' = Some ''oops''"
proof -
  have h: "\<not> match_20d (toString (statusCode \<lparr>statusCode = 500, res_body = ''oops  ''\<rparr>))"
    by (simp add: toString_examples)
  have w: "writeFile (sample_env (replies [])) ''report.csv'' ''oops'' = None"
    by (simp add: sample_env_def)
  have t: "trim ''oops  '' = ''oops''" by (simp add: trim_def white_def)
  note f = file_written_despite_status_error[OF h, of "sample_env (replies [])" "''report.csv''"
      "sample_client (JStr ''T0'')"]
  from f have a: "snd (processFile (sample_env (replies [])) ''report.csv''
            \<lparr>statusCode = 500, res_body = ''oops  ''\<rparr> (sample_client (JStr ''T0'')))
       = Rejected ''Bad Response From API: Status Code 500 | oops  ''"
    by (simp add: bad_response_def toString_examples)
  from f w have b: "files (fst (processFile (sample_env (replies [])) ''report.csv''
            \<lparr>statusCode = 500, res_body = ''oops  ''\<rparr> (sample_client (JStr ''T0''))))
        ''report.csv'' = Some ''oops''"
    unfolding res.simps t by blast
  from h a b show ?thesis by blast
qed

subsection \<open>The Authenticator\<close>

text \<open>
  The Authenticator fails exactly when the body does not parse or parses to \<^verbatim>\<open>null\<close>,
  and then it leaves the Token Store unchanged. The status code plays no part.
\<close>

lemma processAuth_failure:
  "(\<exists>m. snd (processAuth e rs c) = Rejected m) \<longleftrightarrow>
     (case JSON_parse e (res_body rs) of Inl t \<Rightarrow> True | Inr v \<Rightarrow> v = JNull \<or> v = JUndefined)"
  "snd (processAuth e rs c) = Rejected m \<Longrightarrow> fst (processAuth e rs c) = c"
  by (auto simp: processAuth_def split: sum.splits option.splits elim: access_token.elims)

text \<open>
  C2, at a failing input. The token exchange is answered with status 401 and the body
  \<^verbatim>\<open>{"error":"invalid_client"}\<close>, while the Token Store holds \<open>T0\<close>: the handler
  resolves with \<^verbatim>\<open>undefined\<close> and overwrites the token with \<^verbatim>\<open>undefined\<close>, and so does
  the whole authenticate operation.
\<close>

theorem processAuth_ignores_status:
  \<open>(case processAuth (sample_env (replies []))
      \<lparr>statusCode = 401, res_body = ''{"error":"invalid_client"}''\<rparr> (sample_client (JStr ''T0''))
     of (c', p) \<Rightarrow> (token c', p)) = (JUndefined, Resolved JUndefined)
   \<and> (case criteoApiRequest
         (sample_env (replies [Inr \<lparr>statusCode = 401, res_body = ''{"error":"invalid_client"}''\<rparr>]))
         (auth_descriptor (sample_env (replies [])) False) (sample_client (JStr ''T0''))
       of (r', c', p) \<Rightarrow> (token c', p)) = (JUndefined, Resolved JUndefined)\<close>
  by code_simp

section \<open>Properties of the request pipeline\<close>

subsection \<open>What every run guarantees\<close>

lemma new_events_eq: "trace c' = trace c @ evs \<Longrightarrow> new_events c c' = evs"
  by (simp add: new_events_def)

lemma parsers_trace [simp]:
  "trace (fst (parseJSON e b c)) = trace c"
  "trace (fst (parseResponse b c)) = trace c"
  "trace (fst (saveToFile e fp b c)) = trace c"
  by (simp_all add: parseJSON_def parseResponse_def saveToFile_def split: sum.splits option.splits)

lemma parsers_settle [simp]:
  "snd (parseJSON e b c) \<noteq> Pending"
  "snd (parseResponse b c) \<noteq> Pending"
  "snd (saveToFile e fp b c) \<noteq> Pending"
  by (simp_all add: parseJSON_def parseResponse_def saveToFile_def split: sum.splits option.splits)

lemma process_trace:
  "(\<And>b c. trace (fst (parser b c)) = trace c) \<Longrightarrow> trace (fst (process rs parser c)) = trace c"
  by (simp add: process_def Let_def case_prod_beta)

lemma settle_Pending [simp]: "settle p q = Pending \<longleftrightarrow> p = Pending \<and> q = Pending"
  by (cases p) simp_all

lemma process_settles:
  "(\<And>b c. snd (parser b c) \<noteq> Pending) \<Longrightarrow> snd (process rs parser c) \<noteq> Pending"
  by (simp add: process_def Let_def case_prod_beta)

lemma processAuth_trace [simp]: "trace (fst (processAuth e rs c)) = trace c"
  by (simp add: processAuth_def split: sum.splits option.splits)

lemma processAuth_settles [simp]: "snd (processAuth e rs c) \<noteq> Pending"
  by (simp add: processAuth_def split: sum.splits option.splits)

lemma apply_handler_trace [simp]: "trace (fst (apply_handler e h rs c)) = trace c"
  by (cases h) (simp_all add: processJSON_def processFile_def processResponse_def process_trace)

lemma apply_handler_settles [simp]: "snd (apply_handler e h rs c) \<noteq> Pending"
  by (cases h) (simp_all add: processJSON_def processFile_def processResponse_def process_settles)

lemma executeRequest_trace [simp]:
  "trace (fst (executeRequest e r c)) = trace c @ [EvExecute (path r)]"
  by (simp add: executeRequest_def request_def emit_def Let_def split: sum.splits)

lemma executeRequest_settles [simp]: "snd (executeRequest e r c) \<noteq> Pending"
  by (simp add: executeRequest_def request_def emit_def Let_def split: sum.splits)

lemma executeRequest_flags [simp]:
  "executeRequest e (r\<lparr>retry := b\<rparr>) c = executeRequest e r c"
  "executeRequest e (r\<lparr>callbackExecuted := b\<rparr>) c = executeRequest e r c"
  "executeRequest e (r\<lparr>callback := b\<rparr>) c = executeRequest e r c"
  by (simp_all add: executeRequest_def request_def Let_def)

lemma run_postI:
  "trace c' = trace c @ evs \<Longrightarrow> frame r r' \<Longrightarrow> (retry r \<longrightarrow> retry r') \<Longrightarrow> cb_post e r r' p evs
   \<Longrightarrow> run_post e r c (r', c', p)"
  unfolding run_post_def by auto

lemma run_postE:
  assumes "run_post e r c (r', c', p)"
  obtains evs where "trace c' = trace c @ evs" "frame r r'" "retry r \<longrightarrow> retry r'"
    "cb_post e r r' p evs"
  using assms unfolding run_post_def by auto

lemma frame_refl [simp]: "frame r r"
  by (simp add: frame_def)

lemma frame_updates [simp]:
  "frame r (r'\<lparr>callbackExecuted := b\<rparr>) = frame r r'"
  "frame (r\<lparr>retry := b\<rparr>) r' = frame r r'"
  by (simp_all add: frame_def)

lemma run_unfold:
  assumes "(if checkAuthentication c r then (c, Resolved JUndefined) else authenticate e c)
             = (c1, p1)"
    and "(case p1 of Resolved x \<Rightarrow> executeRequest e r c1 | _ \<Rightarrow> (c1, p1)) = (c2, p2)"
    and "(case p2 of Rejected err \<Rightarrow> decideWhetherToRequeue e r err c2 | _ \<Rightarrow> (r, c2, p2))
           = (r3, c3, p3)"
  shows "criteoApiRequest e r c = stage5 e r3 c3 p3"
  by (subst criteoApiRequest.simps) (cases p3; simp add: assms stage5_def)

lemma stage5_post:
  assumes "filter is_callback evs = []" and "p3 \<noteq> Pending"
  shows "case stage5 e r c3 p3 of (r', c', p) \<Rightarrow>
           \<exists>evs'. trace c' = trace c3 @ evs' \<and> frame r r' \<and> retry r' = retry r \<and>
                  cb_post e r r' p (evs @ evs')"
proof (cases p3)
  case (Resolved v)
  show ?thesis
  proof (cases "callback_throws e (EvCallbackOk v)")
    case None
    with assms(1) show ?thesis
      by (simp add: Resolved stage5_def resolveRequest_def emit_def cb_post_def)
  next
    case (Some x)
    with assms(1) show ?thesis
      by (simp add: Resolved stage5_def resolveRequest_def rejectRequest_def emit_def
          cb_post_def)
  qed
next
  case (Rejected err)
  with assms(1) show ?thesis
    by (simp add: stage5_def rejectRequest_def emit_def cb_post_def)
next
  case Pending
  with assms(2) show ?thesis by simp
qed

lemma settle_stage_post:
  assumes t: "trace c3 = trace c @ evs" and nc: "filter is_callback evs = []"
    and np: "p3 \<noteq> Pending"
  shows "run_post e r c (stage5 e r c3 p3)"
proof -
  obtain r' c' p where x: "stage5 e r c3 p3 = (r', c', p)" by (cases "stage5 e r c3 p3")
  with stage5_post[OF nc np, where e = e and r = r and ?c3.0 = c3] obtain evs' where
    "trace c' = trace c3 @ evs'" "frame r r'" "retry r' = retry r" "cb_post e r r' p (evs @ evs')"
    by auto
  then have "run_post e r c (r', c', p)"
    using t by (intro run_postI[where evs = "evs @ evs'"]) simp_all
  then show ?thesis by (simp add: x)
qed

lemma settle_stage_after_requeue:
  assumes "run_post e r c (r3, c3, p3)"
  shows "stage5 e r3 c3 p3 = (r3, c3, p3)"
proof -
  from assms obtain evs where f: "frame r r3" and cb: "cb_post e r r3 p3 evs"
    by (rule run_postE)
  have nd: "p3 \<noteq> Pending \<Longrightarrow> \<not> (callback r3 \<and> \<not> callbackExecuted r3)"
    using f cb by (auto simp: frame_def cb_post_def split: if_splits)
  show ?thesis
    by (cases p3) (simp_all add: nd stage5_def resolveRequest_def rejectRequest_def)
qed

lemma run_post_prefix:
  assumes "trace c2 = trace c @ evs2" "filter is_callback evs2 = []" "run_post e r c2 x"
  shows "run_post e r c x"
proof -
  obtain r' c' p where x: "x = (r', c', p)" by (cases x)
  from assms(3)[unfolded x] obtain evs where t: "trace c' = trace c2 @ evs" and f: "frame r r'"
    and rr: "retry r \<longrightarrow> retry r'" and cb: "cb_post e r r' p evs"
    by (rule run_postE)
  have cb': "cb_post e r r' p (evs2 @ evs)" using cb assms(2) by (auto simp: cb_post_def split: if_splits)
  show ?thesis unfolding x
    by (rule run_postI[where evs = "evs2 @ evs"]) (simp_all add: t assms(1) f rr cb')
qed

lemma pipeline_post:
  "run_post e r c (criteoApiRequest e r c)"
  "auth_post c (authenticate e c)"
  "decide_post e r err c (decideWhetherToRequeue e r err c)"
proof (induction e r c and e c and e r err c
    rule: criteoApiRequest_authenticate_decideWhetherToRequeue.induct)
  case (1 e r c)
  obtain c1 p1 where s1:
    "(if checkAuthentication c r then (c, Resolved JUndefined) else authenticate e c) = (c1, p1)"
    by (cases "if checkAuthentication c r then (c, Resolved JUndefined) else authenticate e c")
  have a1: "\<exists>evs1. trace c1 = trace c @ evs1 \<and> filter is_callback evs1 = [] \<and> p1 \<noteq> Pending"
  proof (cases "checkAuthentication c r")
    case True
    with s1 have "c1 = c" "p1 = Resolved JUndefined" by simp_all
    then show ?thesis by simp
  next
    case False
    with s1 "1.IH"(1) show ?thesis by (simp add: auth_post_def)
  qed
  obtain c2 p2 where s2:
    "(case p1 of Resolved x \<Rightarrow> executeRequest e r c1 | _ \<Rightarrow> (c1, p1)) = (c2, p2)"
    by (cases "case p1 of Resolved x \<Rightarrow> executeRequest e r c1 | _ \<Rightarrow> (c1, p1)")
  from a1 obtain evs1 where t1: "trace c1 = trace c @ evs1" and n1: "filter is_callback evs1 = []"
    and p1: "p1 \<noteq> Pending" by blast
  have a2: "\<exists>evs2. trace c2 = trace c @ evs2 \<and> filter is_callback evs2 = [] \<and> p2 \<noteq> Pending"
  proof (cases p1)
    case (Resolved v)
    with s2 have c2: "c2 = fst (executeRequest e r c1)" and "p2 = snd (executeRequest e r c1)"
      by simp_all
    then have "p2 \<noteq> Pending" by simp
    moreover have "trace c2 = trace c @ (evs1 @ [EvExecute (path r)])"
      by (simp add: c2 t1)
    moreover have "filter is_callback (evs1 @ [EvExecute (path r)]) = []"
      by (simp add: n1)
    ultimately show ?thesis by blast
  next
    case (Rejected m)
    with s2 have "c2 = c1" "p2 = p1" by simp_all
    with t1 n1 p1 show ?thesis by blast
  next
    case Pending
    with p1 show ?thesis by simp
  qed
  then obtain evs2 where t2: "trace c2 = trace c @ evs2" and n2: "filter is_callback evs2 = []"
    and p2: "p2 \<noteq> Pending" by blast
  obtain r3 c3 p3 where s3:
    "(case p2 of Rejected err \<Rightarrow> decideWhetherToRequeue e r err c2 | _ \<Rightarrow> (r, c2, p2))
       = (r3, c3, p3)"
    by (cases "case p2 of Rejected err \<Rightarrow> decideWhetherToRequeue e r err c2 | _ \<Rightarrow> (r, c2, p2)")
  have unf: "criteoApiRequest e r c = stage5 e r3 c3 p3"
    using s1 s2 s3 by (rule run_unfold)
  show ?case
  proof (cases p2)
    case (Resolved v)
    with s3 have e3: "r3 = r" "c3 = c2" "p3 = p2" by simp_all
    show ?thesis unfolding unf e3 using t2 n2 p2 by (rule settle_stage_post)
  next
    case Pending
    with p2 show ?thesis by simp
  next
    case (Rejected err)
    with s3 have d: "decideWhetherToRequeue e r err c2 = (r3, c3, p3)" by simp
    have "decide_post e r err c2 (decideWhetherToRequeue e r err c2)"
      using "1.IH"(2)[of "(c1, p1)" c1 p1 "(c2, p2)" c2 p2 err] s1 s2 Rejected by simp
    then consider (terminal) "r3 = r" "c3 = c2" "p3 = Rejected err"
      | (requeued) "run_post e r c2 (r3, c3, p3)"
      unfolding decide_post_def d by auto
    then show ?thesis
    proof cases
      case terminal
      have "p3 \<noteq> Pending" by (simp add: terminal)
      with t2 n2 show ?thesis unfolding unf terminal(1,2) by (rule settle_stage_post)
    next
      case requeued
      have "run_post e r c (r3, c3, p3)" using t2 n2 requeued by (rule run_post_prefix)
      then show ?thesis unfolding unf by (simp add: settle_stage_after_requeue)
    qed
  qed
next
  case (2 e c)
  obtain ra c' p where x:
    "criteoApiRequest e (auth_descriptor e False) (emit EvAuthenticate c) = (ra, c', p)"
    by (cases "criteoApiRequest e (auth_descriptor e False) (emit EvAuthenticate c)")
  with 2 have "run_post e (auth_descriptor e False) (emit EvAuthenticate c) (ra, c', p)" by simp
  then obtain evs where t: "trace c' = trace (emit EvAuthenticate c) @ evs"
    and cb: "cb_post e (auth_descriptor e False) ra p evs"
    by (rule run_postE)
  have "trace c' = trace c @ (EvAuthenticate # evs)" using t by (simp add: emit_def)
  moreover have "filter is_callback (EvAuthenticate # evs) = []" "p \<noteq> Pending"
    using cb by (simp_all add: cb_post_def auth_descriptor_def)
  ultimately have "auth_post c (c', p)" unfolding auth_post_def by blast
  then show ?case
    by (subst authenticate.simps) (simp add: x)
next
  case (3 e r err c)
  show ?case
  proof (cases "sublist ''401'' (error_toString err) \<and> \<not> retry r")
    case False
    then have "decideWhetherToRequeue e r err c = (r, c, Rejected err)"
      by (subst decideWhetherToRequeue.simps) auto
    then show ?thesis by (simp add: decide_post_def)
  next
    case True
    let ?x = "criteoApiRequest e (r\<lparr>retry := True\<rparr>) (emit (EvRequeue (path r)) c)"
    have d: "decideWhetherToRequeue e r err c = ?x"
      using True by (subst decideWhetherToRequeue.simps) simp
    from 3 True have rp: "run_post e (r\<lparr>retry := True\<rparr>) (emit (EvRequeue (path r)) c) ?x" by simp
    obtain r' c' p where x: "?x = (r', c', p)" by (cases ?x)
    from rp[unfolded x] obtain evs where t: "trace c' = trace (emit (EvRequeue (path r)) c) @ evs"
      and f: "frame (r\<lparr>retry := True\<rparr>) r'" and rr: "retry (r\<lparr>retry := True\<rparr>) \<longrightarrow> retry r'"
      and cb: "cb_post e (r\<lparr>retry := True\<rparr>) r' p evs"
      by (rule run_postE)
    have t': "trace c' = trace c @ (EvRequeue (path r) # evs)" using t by (simp add: emit_def)
    have cb': "cb_post e r r' p (EvRequeue (path r) # evs)" using cb by (auto simp: cb_post_def split: if_splits)
    have "run_post e r c (r', c', p)"
      using t' by (rule run_postI) (use f rr cb' in simp_all)
    moreover have "retry r'" using rr by simp
    ultimately show ?thesis by (simp add: d x decide_post_def)
  qed
qed

subsection \<open>The events of a run\<close>

lemma grows_refl [simp]: "grows c c"
  by (simp add: grows_def)

lemma grows_trans: "grows a b \<Longrightarrow> grows b c \<Longrightarrow> grows a c"
  unfolding grows_def by (rule prefix_order.trans)

lemma grows_emit [simp]: "grows c (emit ev c)"
  by (simp add: grows_def emit_def)

lemma new_events_append:
  assumes "grows a b" "grows b c"
  shows "new_events a c = new_events a b @ new_events b c"
proof -
  from assms obtain xs ys where "trace b = trace a @ xs" "trace c = trace b @ ys"
    unfolding grows_def prefix_def by blast
  then show ?thesis by (simp add: new_events_def)
qed

lemma new_events_self [simp]: "new_events c c = []"
  by (simp add: new_events_def)

lemma new_events_emit [simp]: "new_events c (emit ev c) = [ev]"
  by (simp add: new_events_def emit_def)

lemma grows_run: "criteoApiRequest e r c = (r', c', p) \<Longrightarrow> grows c c'"
  using pipeline_post(1)[of e r c] by (auto simp: run_post_def grows_def)

lemma grows_auth: "authenticate e c = (c', p) \<Longrightarrow> grows c c'"
  using pipeline_post(2)[of c e] by (auto simp: auth_post_def grows_def)

lemma grows_decide: "decideWhetherToRequeue e r err c = (r', c', p) \<Longrightarrow> grows c c'"
  using pipeline_post(3)[of e r err c] by (auto simp: decide_post_def run_post_def grows_def)

lemma grows_execute: "executeRequest e r c = (c', p) \<Longrightarrow> grows c c'"
  using executeRequest_trace[of e r c] by (simp add: grows_def)

lemma new_events_execute:
  "executeRequest e r c = (c', p) \<Longrightarrow> new_events c c' = [EvExecute (path r)]"
  using executeRequest_trace[of e r c] by (simp add: new_events_def)

text \<open>Stage 5 touches neither the retry flag nor the path, and adds callback events only.\<close>

lemma settle_stage_facts:
  assumes "stage5 e r3 c3 p3 = (r', c', p)"
  shows "retry r' = retry r3 \<and> path r' = path r3 \<and> grows c3 c' \<and>
         list_all is_callback (new_events c3 c')"
  using assms
  by (cases p3)
    (auto simp: stage5_def resolveRequest_def rejectRequest_def
      split: if_splits option.splits)

lemma count_callbacks_only:
  "list_all is_callback evs \<Longrightarrow> \<not> is_callback ev \<Longrightarrow> count_list evs ev = 0"
  by (induction evs) auto

lemma callbacks_token_events: "list_all is_callback evs \<Longrightarrow> list_all token_event evs"
  by (induction evs) (auto elim: is_callback.elims)

lemma count_token_events:
  "list_all token_event evs \<Longrightarrow> \<not> token_event ev \<Longrightarrow> count_list evs ev = 0"
  by (induction evs) auto

lemma gate_retried [simp]:
  "checkAuthentication c (r\<lparr>retry := True\<rparr>) = (path r = ''/oauth2/token'')"
  by (simp add: checkAuthentication_def)

lemma gate_oauth: "path r = ''/oauth2/token'' \<Longrightarrow> checkAuthentication c r"
  by (simp add: checkAuthentication_def)

lemma ev_post_compose:
  assumes n1: "(checkAuthentication c r \<and> n1 = []) \<or>
               (\<not> checkAuthentication c r \<and> (\<exists>evs. n1 = EvAuthenticate # evs \<and> list_all token_event evs))"
    and n2: "n2 = [EvExecute (path r)] \<or> n2 = []"
    and n3: "(r3 = r \<and> n3 = []) \<or>
             (\<not> retry r \<and> retry r3 \<and>
              (\<exists>evs. n3 = EvRequeue (path r) # evs \<and> ev_post (r\<lparr>retry := True\<rparr>) c0 r3 evs))"
    and n4: "list_all is_callback n4"
    and r': "retry r' = retry r3"
  shows "ev_post r c r' (n1 @ n2 @ n3 @ n4)"
proof (cases "path r = ''/oauth2/token''")
  case True
  then have g: "checkAuthentication c r" by (rule gate_oauth)
  with n1 have n1': "n1 = []" by blast
  have t4: "list_all token_event n4" using n4 by (rule callbacks_token_events)
  have c4: "count_list n4 (EvRequeue (path r)) = 0" "count_list n4 (EvExecute (path r)) = 0"
    using n4 by (simp_all add: count_callbacks_only)
  from n3 show ?thesis
  proof
    assume "r3 = r \<and> n3 = []"
    then show ?thesis using n2 True t4 c4 r' by (auto simp: ev_post_def n1')
  next
    assume a: "\<not> retry r \<and> retry r3 \<and>
              (\<exists>evs. n3 = EvRequeue (path r) # evs \<and> ev_post (r\<lparr>retry := True\<rparr>) c0 r3 evs)"
    then obtain evs where e: "n3 = EvRequeue (path r) # evs"
      and p: "ev_post (r\<lparr>retry := True\<rparr>) c0 r3 evs" by blast
    from p True have "count_list evs (EvRequeue (path r)) = 0"
      "count_list evs (EvExecute (path r)) \<le> 1" "list_all token_event evs"
      by (simp_all add: ev_post_def)
    then show ?thesis using n2 True t4 c4 r' a by (auto simp: ev_post_def n1' e)
  qed
next
  case False
  have c4: "count_list n4 (EvRequeue (path r)) = 0" "count_list n4 (EvExecute (path r)) = 0"
    "count_list n4 EvAuthenticate = 0"
    using n4 by (simp_all add: count_callbacks_only)
  have c1: "count_list n1 (EvRequeue (path r)) = 0" "count_list n1 (EvExecute (path r)) = 0"
    "count_list n1 EvAuthenticate = (if checkAuthentication c r then 0 else 1)"
    using n1 False by (auto simp: count_token_events)
  have c2: "count_list n2 (EvRequeue (path r)) = 0" "count_list n2 (EvExecute (path r)) \<le> 1"
    "count_list n2 EvAuthenticate = 0"
    using n2 by auto
  from n3 show ?thesis
  proof
    assume "r3 = r \<and> n3 = []"
    then show ?thesis using False c1 c2 c4 r' by (simp add: ev_post_def)
  next
    assume a: "\<not> retry r \<and> retry r3 \<and>
              (\<exists>evs. n3 = EvRequeue (path r) # evs \<and> ev_post (r\<lparr>retry := True\<rparr>) c0 r3 evs)"
    then obtain evs where e: "n3 = EvRequeue (path r) # evs"
      and p: "ev_post (r\<lparr>retry := True\<rparr>) c0 r3 evs" by blast
    from p False have "count_list evs (EvRequeue (path r)) = 0"
      "count_list evs (EvExecute (path r)) \<le> 1" "count_list evs EvAuthenticate = 1"
      by (simp_all add: ev_post_def)
    then show ?thesis using False c1 c2 c4 r' a by (simp add: ev_post_def e)
  qed
qed

lemma pipeline_events:
  "run_ev r c (criteoApiRequest e r c)"
  "auth_ev c (authenticate e c)"
  "decide_ev r err c (decideWhetherToRequeue e r err c)"
proof (induction e r c and e c and e r err c
    rule: criteoApiRequest_authenticate_decideWhetherToRequeue.induct)
  case (1 e r c)
  obtain c1 p1 where s1:
    "(if checkAuthentication c r then (c, Resolved JUndefined) else authenticate e c) = (c1, p1)"
    by (cases "if checkAuthentication c r then (c, Resolved JUndefined) else authenticate e c")
  obtain c2 p2 where s2:
    "(case p1 of Resolved x \<Rightarrow> executeRequest e r c1 | _ \<Rightarrow> (c1, p1)) = (c2, p2)"
    by (cases "case p1 of Resolved x \<Rightarrow> executeRequest e r c1 | _ \<Rightarrow> (c1, p1)")
  obtain r3 c3 p3 where s3:
    "(case p2 of Rejected err \<Rightarrow> decideWhetherToRequeue e r err c2 | _ \<Rightarrow> (r, c2, p2))
       = (r3, c3, p3)"
    by (cases "case p2 of Rejected err \<Rightarrow> decideWhetherToRequeue e r err c2 | _ \<Rightarrow> (r, c2, p2)")
  obtain r' c' p where s4: "stage5 e r3 c3 p3 = (r', c', p)"
    by (cases "stage5 e r3 c3 p3")
  have unf: "criteoApiRequest e r c = (r', c', p)"
    using run_unfold[OF s1 s2 s3] s4 by simp
  \<comment> \<open>stage 1 and 2\<close>
  have g1: "grows c c1"
    using s1 by (cases "checkAuthentication c r") (auto intro: grows_auth)
  have n1: "(checkAuthentication c r \<and> new_events c c1 = []) \<or>
            (\<not> checkAuthentication c r \<and>
             (\<exists>evs. new_events c c1 = EvAuthenticate # evs \<and> list_all token_event evs))"
  proof (cases "checkAuthentication c r")
    case True
    with s1 show ?thesis by auto
  next
    case False
    with s1 "1.IH"(1) show ?thesis by (simp add: auth_ev_def)
  qed
  \<comment> \<open>stage 3\<close>
  have g2: "grows c1 c2"
    using s2 by (cases p1) (auto intro: grows_execute)
  have n2: "new_events c1 c2 = [EvExecute (path r)] \<or> new_events c1 c2 = []"
    using s2 by (cases p1) (auto dest: new_events_execute)
  \<comment> \<open>stage 4\<close>
  have g3: "grows c2 c3"
    using s3 by (cases p2) (auto intro: grows_decide)
  have n3: "(r3 = r \<and> new_events c2 c3 = []) \<or>
            (\<not> retry r \<and> retry r3 \<and>
             (\<exists>evs. new_events c2 c3 = EvRequeue (path r) # evs \<and>
                ev_post (r\<lparr>retry := True\<rparr>) (emit (EvRequeue (path r)) c2) r3 evs))"
  proof (cases p2)
    case (Rejected err)
    with s3 have d: "decideWhetherToRequeue e r err c2 = (r3, c3, p3)" by simp
    have "decide_ev r err c2 (decideWhetherToRequeue e r err c2)"
      using "1.IH"(2)[of "(c1, p1)" c1 p1 "(c2, p2)" c2 p2 err] s1 s2 Rejected by simp
    then show ?thesis unfolding d decide_ev_def by auto
  next
    case (Resolved v)
    with s3 show ?thesis by auto
  next
    case Pending
    with s3 show ?thesis by auto
  qed
  \<comment> \<open>stage 5\<close>
  from settle_stage_facts[OF s4] have r': "retry r' = retry r3" and g4: "grows c3 c'"
    and n4: "list_all is_callback (new_events c3 c')" by simp_all
  have g34: "grows c2 c'" using g3 g4 by (rule grows_trans)
  have g24: "grows c1 c'" using g2 g34 by (rule grows_trans)
  have "new_events c c' = new_events c c1 @ new_events c1 c2 @ new_events c2 c3 @ new_events c3 c'"
    by (simp only: new_events_append[OF g1 g24] new_events_append[OF g2 g34]
        new_events_append[OF g3 g4])
  moreover have "ev_post r c r'
      (new_events c c1 @ new_events c1 c2 @ new_events c2 c3 @ new_events c3 c')"
    using n1 n2 n3 n4 r' by (rule ev_post_compose)
  ultimately show ?case by (simp add: unf run_ev_def)
next
  case (2 e c)
  obtain ra c' p where x:
    "criteoApiRequest e (auth_descriptor e False) (emit EvAuthenticate c) = (ra, c', p)"
    by (cases "criteoApiRequest e (auth_descriptor e False) (emit EvAuthenticate c)")
  with 2 have "ev_post (auth_descriptor e False) (emit EvAuthenticate c) ra
      (new_events (emit EvAuthenticate c) c')"
    by (simp add: run_ev_def)
  then have "list_all token_event (new_events (emit EvAuthenticate c) c')"
    by (simp add: ev_post_def auth_descriptor_def)
  moreover have "new_events c c' = EvAuthenticate # new_events (emit EvAuthenticate c) c'"
    using new_events_append[OF grows_emit grows_run[OF x]] by simp
  ultimately have "auth_ev c (c', p)" by (simp add: auth_ev_def)
  then show ?case by (subst authenticate.simps) (simp add: x)
next
  case (3 e r err c)
  show ?case
  proof (cases "sublist ''401'' (error_toString err) \<and> \<not> retry r")
    case False
    then have "decideWhetherToRequeue e r err c = (r, c, Rejected err)"
      by (subst decideWhetherToRequeue.simps) auto
    then show ?thesis by (simp add: decide_ev_def)
  next
    case True
    let ?c0 = "emit (EvRequeue (path r)) c"
    let ?x = "criteoApiRequest e (r\<lparr>retry := True\<rparr>) ?c0"
    have d: "decideWhetherToRequeue e r err c = ?x"
      using True by (subst decideWhetherToRequeue.simps) simp
    obtain r' c' p where x: "?x = (r', c', p)" by (cases ?x)
    from 3 True have "ev_post (r\<lparr>retry := True\<rparr>) ?c0 r' (new_events ?c0 c')"
      by (simp add: run_ev_def x)
    moreover have "new_events c c' = EvRequeue (path r) # new_events ?c0 c'"
      using new_events_append[OF grows_emit grows_run[OF x]] by simp
    moreover have "retry r'"
      using pipeline_post(1)[of e "r\<lparr>retry := True\<rparr>" ?c0] by (auto simp: x run_post_def)
    ultimately show ?thesis using True by (simp add: d x decide_ev_def)
  qed
qed

subsection \<open>The stages of a run\<close>

lemma run_stages:
  assumes "criteoApiRequest e r c = (r', c', p)"
  obtains c1 p1 c2 p2 r3 c3 p3 where
    "(if checkAuthentication c r then (c, Resolved JUndefined) else authenticate e c) = (c1, p1)"
    "(case p1 of Resolved x \<Rightarrow> executeRequest e r c1 | _ \<Rightarrow> (c1, p1)) = (c2, p2)"
    "(case p2 of Rejected err \<Rightarrow> decideWhetherToRequeue e r err c2 | _ \<Rightarrow> (r, c2, p2))
       = (r3, c3, p3)"
    "stage5 e r3 c3 p3 = (r', c', p)"
    "new_events c c' = new_events c c1 @ new_events c1 c2 @ new_events c2 c3 @ new_events c3 c'"
    "list_all is_callback (new_events c3 c')"
proof -
  obtain c1 p1 where s1:
    "(if checkAuthentication c r then (c, Resolved JUndefined) else authenticate e c) = (c1, p1)"
    by (cases "if checkAuthentication c r then (c, Resolved JUndefined) else authenticate e c")
  obtain c2 p2 where s2:
    "(case p1 of Resolved x \<Rightarrow> executeRequest e r c1 | _ \<Rightarrow> (c1, p1)) = (c2, p2)"
    by (cases "case p1 of Resolved x \<Rightarrow> executeRequest e r c1 | _ \<Rightarrow> (c1, p1)")
  obtain r3 c3 p3 where s3:
    "(case p2 of Rejected err \<Rightarrow> decideWhetherToRequeue e r err c2 | _ \<Rightarrow> (r, c2, p2))
       = (r3, c3, p3)"
    by (cases "case p2 of Rejected err \<Rightarrow> decideWhetherToRequeue e r err c2 | _ \<Rightarrow> (r, c2, p2)")
  have s4: "stage5 e r3 c3 p3 = (r', c', p)"
    using run_unfold[OF s1 s2 s3] assms by simp
  have g1: "grows c c1"
    using s1 by (cases "checkAuthentication c r") (auto intro: grows_auth)
  have g2: "grows c1 c2"
    using s2 by (cases p1) (auto intro: grows_execute)
  have g3: "grows c2 c3"
    using s3 by (cases p2) (auto intro: grows_decide)
  from settle_stage_facts[OF s4] have g4: "grows c3 c'"
    and n4: "list_all is_callback (new_events c3 c')" by simp_all
  have g34: "grows c2 c'" using g3 g4 by (rule grows_trans)
  have g24: "grows c1 c'" using g2 g34 by (rule grows_trans)
  have "new_events c c' = new_events c c1 @ new_events c1 c2 @ new_events c2 c3 @ new_events c3 c'"
    by (simp only: new_events_append[OF g1 g24] new_events_append[OF g2 g34]
        new_events_append[OF g3 g4])
  with s1 s2 s3 s4 show ?thesis using n4 by (rule that)
qed

lemma authenticate_first_event:
  "\<exists>evs. new_events c (fst (authenticate e c)) = EvAuthenticate # evs"
  using pipeline_events(2)[of c e] by (cases "authenticate e c") (auto simp: auth_ev_def)

lemma run_first_event:
  assumes "criteoApiRequest e r c = (r', c', p)"
  shows "\<exists>evs. new_events c c' =
           (if checkAuthentication c r then EvExecute (path r) else EvAuthenticate) # evs"
proof -
  from assms obtain c1 p1 c2 p2 r3 c3 p3 where
    s1: "(if checkAuthentication c r then (c, Resolved JUndefined) else authenticate e c) = (c1, p1)"
    and s2: "(case p1 of Resolved x \<Rightarrow> executeRequest e r c1 | _ \<Rightarrow> (c1, p1)) = (c2, p2)"
    and n: "new_events c c' = new_events c c1 @ new_events c1 c2 @ new_events c2 c3 @ new_events c3 c'"
    by (rule run_stages)
  show ?thesis
  proof (cases "checkAuthentication c r")
    case True
    with s1 have "c1 = c" "p1 = Resolved JUndefined" by simp_all
    with s2 have "new_events c c1 = []" "new_events c1 c2 = [EvExecute (path r)]"
      by (simp_all add: new_events_execute)
    with n True show ?thesis by simp
  next
    case False
    with s1 have "c1 = fst (authenticate e c)" by simp
    with authenticate_first_event[of c e] obtain evs where "new_events c c1 = EvAuthenticate # evs"
      by auto
    with n False show ?thesis by simp
  qed
qed

subsection \<open>Stage 1: the authentication gate\<close>

text \<open>
  C9. For every descriptor entering stage 1, the gate succeeds exactly when a token is
  stored (a truthy token: for a string, a non-empty one) and the descriptor is not
  marked as a retry, or the descriptor's path is \<^verbatim>\<open>/oauth2/token\<close>; when it fails,
  stage 2 runs: the first thing the pipeline does is to call \<^verbatim>\<open>authenticate\<close>, and
  when it succeeds the first thing is the execution of the request.
\<close>

theorem authentication_gate:
  "(checkAuthentication c r \<longleftrightarrow>
      (truthy (token c) \<and> \<not> retry r) \<or> path r = ''/oauth2/token'')
   \<and> (checkAuthentication (c\<lparr>token := JStr s\<rparr>) r \<longleftrightarrow>
      (s \<noteq> [] \<and> \<not> retry r) \<or> path r = ''/oauth2/token'')
   \<and> (\<exists>evs. new_events c (fst (snd (criteoApiRequest e r c))) =
          (if checkAuthentication c r then EvExecute (path r) else EvAuthenticate) # evs)"
proof -
  obtain r' c' p where x: "criteoApiRequest e r c = (r', c', p)"
    by (cases "criteoApiRequest e r c")
  from run_first_event[OF x] show ?thesis
    by (simp add: x checkAuthentication_def)
qed

subsection \<open>Stage 4: the retry decision\<close>








text \<open>A failure whose text does not hold \<open>401\<close> is not requeued.\<close>

lemma decide_terminal:
  "\<not> sublist ''401'' (error_toString err) \<Longrightarrow>
   decideWhetherToRequeue e r err c = (r, c, Rejected err)"
  by (subst decideWhetherToRequeue.simps) simp

text \<open>
  C6, at a failing input. The stored token is valid, the request is answered with status
  500 and the body \<^verbatim>\<open>ticket 401\<close>: the descriptor is requeued, the client authenticates
  again and executes the request a second time.
\<close>

theorem retry_on_non_401_status:
  \<open>(case criteoApiRequest
       (sample_env (replies [Inr \<lparr>statusCode = 500, res_body = ''ticket 401''\<rparr>,
          Inr \<lparr>statusCode = 200, res_body = ''{"access_token":"T1"}''\<rparr>,
          Inr \<lparr>statusCode = 200, res_body = ''{"data":[]}''\<rparr>]))
       (sample_request False) (sample_client (JStr ''T0''))
    of (r', c', p) \<Rightarrow> (retry r', trace c', token c', p))
   = (True,
      [EvExecute ''/2021-01/advertisers/me'', EvRequeue ''/2021-01/advertisers/me'',
       EvAuthenticate, EvExecute ''/oauth2/token'', EvExecute ''/2021-01/advertisers/me''],
      JStr ''T1'', Resolved (JObj [(''data'', JArr [])]))\<close>
  by code_simp

text \<open>
  C7, at a failing input. No token is stored and the token exchange fails with a
  transport error whose text holds \<open>401\<close>: the failed authentication is retried
  inside \<^verbatim>\<open>authenticate\<close>, and then the request is requeued and authenticates once
  more; four token exchanges are sent in all.
\<close>

theorem authentication_failure_retried:
  "(case criteoApiRequest
       (sample_env (\<lambda>n rq. Inl ''Error: getaddrinfo ENOTFOUND api401.example.com''))
       (sample_request False) (sample_client (JStr ''''))
    of (r', c', p) \<Rightarrow> (retry r', trace c', length (sent c'), p))
   = (True,
      [EvAuthenticate, EvExecute ''/oauth2/token'', EvRequeue ''/oauth2/token'',
       EvExecute ''/oauth2/token'', EvRequeue ''/2021-01/advertisers/me'',
       EvAuthenticate, EvExecute ''/oauth2/token'', EvRequeue ''/oauth2/token'',
       EvExecute ''/oauth2/token''],
      4, Rejected ''Error: getaddrinfo ENOTFOUND api401.example.com'')"
  by code_simp

subsection \<open>Stage 5: the callback\<close>

text \<open>
  C4. For every fresh Request Descriptor that carries a callback, the callback is invoked
  exactly once over the whole pipeline run, retry included: either with
  \<^verbatim>\<open>(null, result)\<close>, and then the promise resolves with that result when the callback
  returns and rejects with what the callback throws when it throws, or with the error,
  and then the promise stays pending; never both.
\<close>

theorem callback_exactly_once:
  assumes "callback r" and "\<not> callbackExecuted r" and "criteoApiRequest e r c = (r', c', p)"
  shows "callbackExecuted r' \<and>
         ((\<exists>v. filter is_callback (new_events c c') = [EvCallbackOk v] \<and>
               p = (case callback_throws e (EvCallbackOk v) of
                      None \<Rightarrow> Resolved v | Some x \<Rightarrow> Rejected x)) \<or>
          (\<exists>m. p = Pending \<and> filter is_callback (new_events c c') = [EvCallbackErr m]))"
proof -
  from pipeline_post(1)[of e r c] assms(3) obtain evs where
    t: "trace c' = trace c @ evs" and cb: "cb_post e r r' p evs"
    by (auto elim: run_postE)
  have "new_events c c' = evs" using t by (rule new_events_eq)
  with cb assms(1,2) show ?thesis by (simp add: cb_post_def)
qed

text \<open>
  A run with a callback: the stored token is stale, the request is answered with 401,
  the client authenticates again and the second execution succeeds.
\<close>

theorem callback_exactly_once_witness:
  \<open>callback (sample_request True) \<and> \<not> callbackExecuted (sample_request True) \<and>
   (\<exists>r' c'. criteoApiRequest
        (sample_env (replies [Inr \<lparr>statusCode = 401, res_body = ''''\<rparr>,
           Inr \<lparr>statusCode = 200, res_body = ''{"access_token":"T1"}''\<rparr>,
           Inr \<lparr>statusCode = 200, res_body = ''{"data":[]}''\<rparr>]))
        (sample_request True) (sample_client (JStr ''T0''))
      = (r', c', Resolved (JObj [(''data'', JArr [])])) \<and>
      callbackExecuted r' \<and>
      filter is_callback (new_events (sample_client (JStr ''T0'')) c')
        = [EvCallbackOk (JObj [(''data'', JArr [])])])\<close>
proof -
  let ?e = \<open>sample_env (replies [Inr \<lparr>statusCode = 401, res_body = ''''\<rparr>,
           Inr \<lparr>statusCode = 200, res_body = ''{"access_token":"T1"}''\<rparr>,
           Inr \<lparr>statusCode = 200, res_body = ''{"data":[]}''\<rparr>])\<close>
  let ?c = "sample_client (JStr ''T0'')"
  have h1: "callback (sample_request True)" and h2: "\<not> callbackExecuted (sample_request True)"
    by (simp_all add: sample_request_def)
  obtain r' c' p where run: "criteoApiRequest ?e (sample_request True) ?c = (r', c', p)"
    by (cases "criteoApiRequest ?e (sample_request True) ?c")
  have "snd (snd (criteoApiRequest ?e (sample_request True) ?c))
      = Resolved (JObj [(''data'', JArr [])])"
    by code_simp
  then have p: "p = Resolved (JObj [(''data'', JArr [])])" by (simp add: run)
  have nt: "callback_throws ?e = (\<lambda>_. None)" by (simp add: sample_env_def)
  from callback_exactly_once[OF h1 h2 run] p
  show ?thesis using h1 h2 by (simp add: run nt)
qed

subsection \<open>Stage 5: the promise\<close>

text \<open>
  A handler leaves the list of requests sent as it is, so when stage 3 resolves, its
  value is what the descriptor's handler made of the transport's answer to the last
  request sent.
\<close>

lemma apply_handler_sent [simp]: "sent (fst (apply_handler e h rs c)) = sent c"
  by (cases h)
    (simp_all add: processJSON_def processFile_def processResponse_def processAuth_def
      process_def parseJSON_def parseResponse_def saveToFile_def Let_def case_prod_beta
      split: sum.splits option.splits)

lemma executeRequest_handler:
  assumes "executeRequest e r c = (cq, Resolved v)"
  shows "\<exists>c0 rs. sent cq \<noteq> [] \<and> rq_path (last (sent cq)) = endpoint e @ path r \<and>
           transport e (length (sent cq) - 1) (last (sent cq)) = Inr rs \<and>
           apply_handler e (handler r) rs c0 = (cq, Resolved v)"
proof -
  let ?rq = "\<lparr>rq_method = httpMethod r, rq_path = endpoint e @ path r,
              rq_body = body r, rq_bearer = token (emit (EvExecute (path r)) c)\<rparr>"
  let ?c0 = "(emit (EvExecute (path r)) c)\<lparr>sent := sent c @ [?rq]\<rparr>"
  have rq: "request e r (emit (EvExecute (path r)) c) = (?c0, transport e (length (sent c)) ?rq)"
    by (simp add: request_def Let_def emit_def)
  show ?thesis
  proof (cases "transport e (length (sent c)) ?rq")
    case (Inl m)
    with assms rq show ?thesis by (simp add: executeRequest_def)
  next
    case (Inr rs)
    with assms rq have h: "apply_handler e (handler r) rs ?c0 = (cq, Resolved v)"
      by (simp add: executeRequest_def)
    have "sent (fst (apply_handler e (handler r) rs ?c0)) = sent ?c0" by (rule apply_handler_sent)
    with h have s: "sent cq = sent c @ [?rq]" by simp
    from s Inr h show ?thesis by auto
  qed
qed

text \<open>
  One attempt settles and invokes no callback; when it resolves, stage 3 has run.
\<close>

lemma attempt_stages:
  assumes "attempt e r c = (c2, p2)"
  obtains c1 p1 where
    "(if checkAuthentication c r then (c, Resolved JUndefined) else authenticate e c) = (c1, p1)"
    "(case p1 of Resolved x \<Rightarrow> executeRequest e r c1 | _ \<Rightarrow> (c1, p1)) = (c2, p2)"
proof -
  obtain c1 p1 where s1:
    "(if checkAuthentication c r then (c, Resolved JUndefined) else authenticate e c) = (c1, p1)"
    by (cases "if checkAuthentication c r then (c, Resolved JUndefined) else authenticate e c")
  with assms have "(case p1 of Resolved x \<Rightarrow> executeRequest e r c1 | _ \<Rightarrow> (c1, p1)) = (c2, p2)"
    by (simp add: attempt_def)
  with s1 show ?thesis by (rule that)
qed

lemma attempt_facts:
  assumes "attempt e r c = (c2, p2)"
  shows "p2 \<noteq> Pending" "grows c c2" "filter is_callback (new_events c c2) = []"
proof -
  from assms obtain c1 p1 where s1:
    "(if checkAuthentication c r then (c, Resolved JUndefined) else authenticate e c) = (c1, p1)"
    and s2: "(case p1 of Resolved x \<Rightarrow> executeRequest e r c1 | _ \<Rightarrow> (c1, p1)) = (c2, p2)"
    by (rule attempt_stages)
  have a1: "\<exists>evs1. trace c1 = trace c @ evs1 \<and> filter is_callback evs1 = [] \<and> p1 \<noteq> Pending"
  proof (cases "checkAuthentication c r")
    case True
    with s1 have "c1 = c" "p1 = Resolved JUndefined" by simp_all
    then show ?thesis by simp
  next
    case False
    with s1 pipeline_post(2)[of c e] show ?thesis by (simp add: auth_post_def)
  qed
  then obtain evs1 where t1: "trace c1 = trace c @ evs1" and n1: "filter is_callback evs1 = []"
    and p1: "p1 \<noteq> Pending" by blast
  have a2: "\<exists>evs2. trace c2 = trace c @ evs2 \<and> filter is_callback evs2 = [] \<and> p2 \<noteq> Pending"
  proof (cases p1)
    case (Resolved v)
    with s2 have c2: "c2 = fst (executeRequest e r c1)" and "p2 = snd (executeRequest e r c1)"
      by simp_all
    then have "p2 \<noteq> Pending" by simp
    moreover have "trace c2 = trace c @ (evs1 @ [EvExecute (path r)])"
      by (simp add: c2 t1)
    moreover have "filter is_callback (evs1 @ [EvExecute (path r)]) = []"
      by (simp add: n1)
    ultimately show ?thesis by blast
  next
    case (Rejected m)
    with s2 have "c2 = c1" "p2 = p1" by simp_all
    with t1 n1 p1 show ?thesis by blast
  next
    case Pending
    with p1 show ?thesis by simp
  qed
  then obtain evs2 where t2: "trace c2 = trace c @ evs2" and n2: "filter is_callback evs2 = []"
    and p2: "p2 \<noteq> Pending" by blast
  show "p2 \<noteq> Pending" by (rule p2)
  show "grows c c2" by (simp add: grows_def t2)
  show "filter is_callback (new_events c c2) = []" by (simp add: new_events_eq[OF t2] n2)
qed

lemma attempt_handler:
  assumes "attempt e r c = (cq, Resolved v)"
  shows "\<exists>c0 rs. sent cq \<noteq> [] \<and> rq_path (last (sent cq)) = endpoint e @ path r \<and>
           transport e (length (sent cq) - 1) (last (sent cq)) = Inr rs \<and>
           apply_handler e (handler r) rs c0 = (cq, Resolved v)"
proof -
  from assms obtain c1 p1 where s1:
    "(if checkAuthentication c r then (c, Resolved JUndefined) else authenticate e c) = (c1, p1)"
    and s2: "(case p1 of Resolved x \<Rightarrow> executeRequest e r c1 | _ \<Rightarrow> (c1, p1))
               = (cq, Resolved v)"
    by (rule attempt_stages)
  from s2 have "executeRequest e r c1 = (cq, Resolved v)" by (cases p1) simp_all
  then show ?thesis by (rule executeRequest_handler)
qed

text \<open>
  A run is its last attempt followed by stage 5: when stage 4 does not send the
  descriptor through the pipeline again there is one attempt, and when it does, the run
  is the run of the marked descriptor, behind which the outer stage 5 changes nothing.
\<close>

lemma run_single:
  assumes att: "attempt e r c = (c2, p2)"
    and nq: "\<And>err. p2 = Rejected err \<Longrightarrow> \<not> (sublist ''401'' (error_toString err) \<and> \<not> retry r)"
  shows "criteoApiRequest e r c = stage5 e r c2 p2"
proof -
  from att obtain c1 p1 where s1:
    "(if checkAuthentication c r then (c, Resolved JUndefined) else authenticate e c) = (c1, p1)"
    and s2: "(case p1 of Resolved x \<Rightarrow> executeRequest e r c1 | _ \<Rightarrow> (c1, p1)) = (c2, p2)"
    by (rule attempt_stages)
  have s3: "(case p2 of Rejected err \<Rightarrow> decideWhetherToRequeue e r err c2 | _ \<Rightarrow> (r, c2, p2))
      = (r, c2, p2)"
  proof (cases p2)
    case (Rejected err)
    from nq[OF Rejected] have "decideWhetherToRequeue e r err c2 = (r, c2, Rejected err)"
      by (subst decideWhetherToRequeue.simps) auto
    with Rejected show ?thesis by simp
  qed simp_all
  from s1 s2 s3 show ?thesis by (rule run_unfold)
qed

lemma run_requeued:
  assumes att: "attempt e r c = (c2, Rejected err)"
    and q: "sublist ''401'' (error_toString err)" "\<not> retry r"
  shows "criteoApiRequest e r c
       = criteoApiRequest e (r\<lparr>retry := True\<rparr>) (emit (EvRequeue (path r)) c2)"
proof -
  let ?x = "criteoApiRequest e (r\<lparr>retry := True\<rparr>) (emit (EvRequeue (path r)) c2)"
  from att obtain c1 p1 where s1:
    "(if checkAuthentication c r then (c, Resolved JUndefined) else authenticate e c) = (c1, p1)"
    and s2: "(case p1 of Resolved x \<Rightarrow> executeRequest e r c1 | _ \<Rightarrow> (c1, p1))
               = (c2, Rejected err)"
    by (rule attempt_stages)
  obtain r3 c3 p3 where x: "?x = (r3, c3, p3)" by (cases ?x)
  have "decideWhetherToRequeue e r err c2 = ?x"
    using q by (subst decideWhetherToRequeue.simps) simp
  then have s3: "(case Rejected err of Rejected err \<Rightarrow> decideWhetherToRequeue e r err c2
                  | _ \<Rightarrow> (r, c2, Rejected err)) = (r3, c3, p3)"
    by (simp add: x)
  from s1 s2 s3 have "criteoApiRequest e r c = stage5 e r3 c3 p3" by (rule run_unfold)
  also have "\<dots> = (r3, c3, p3)"
    using pipeline_post(1)[of e "r\<lparr>retry := True\<rparr>" "emit (EvRequeue (path r)) c2"]
    unfolding x by (rule settle_stage_after_requeue)
  finally show ?thesis by (simp add: x)
qed

text \<open>What stage 5 makes of a settled promise.\<close>

lemma stage5_exact:
  assumes "stage5 e r c2 p2 = (r', c', p)"
  shows "token c' = token c2 \<and> files c' = files c2 \<and> sent c' = sent c2"
    "p2 = Resolved v \<Longrightarrow>
       p = (if callback r \<and> \<not> callbackExecuted r
            then (case callback_throws e (EvCallbackOk v) of
                    None \<Rightarrow> Resolved v | Some x \<Rightarrow> Rejected x)
            else Resolved v) \<and>
       new_events c2 c' = (if callback r \<and> \<not> callbackExecuted r then [EvCallbackOk v] else [])"
    "p2 = Rejected m \<Longrightarrow>
       p = (if callback r \<and> \<not> callbackExecuted r then Pending else Rejected m) \<and>
       new_events c2 c' = (if callback r \<and> \<not> callbackExecuted r then [EvCallbackErr m] else [])"
  using assms
  by (cases p2;
      auto simp: stage5_def resolveRequest_def rejectRequest_def emit_def new_events_def
        split: if_splits option.splits)+

text \<open>
  C5, as stated, fails: with a callback, a request that times out leaves the promise
  pending; the error reaches the callback only.
\<close>

theorem promise_pending_with_callback:
  "(case criteoApiRequest (sample_env (replies [])) (sample_request True)
          (sample_client (JStr ''T0''))
    of (r', c', p) \<Rightarrow> (trace c', p))
   = ([EvExecute ''/2021-01/advertisers/me'',
       EvCallbackErr ''Request timed out after 12000 ms.''], Pending)"
  by code_simp

text \<open>
  C5, amended. For every call submitted to the pipeline, the last attempt of the run
  settles, and the promise of \<^verbatim>\<open>criteoApiRequest\<close> follows it in this way.
  When the last attempt succeeds, its value is the output of the descriptor's Response
  Handler on the transport's answer to the last request sent, and the promise resolves
  with that value, whether or not a callback was supplied; the one exception is a
  callback that is due and throws when it is invoked with \<^verbatim>\<open>(null, result)\<close>: then
  the promise rejects with what the callback threw. When the last attempt fails, the
  promise rejects with the error of that attempt only when no callback is due (none
  supplied, or already executed); when a callback is due, the error is passed to the
  callback and the promise stays pending. In each case the callback events of the run
  are exactly the invocation described, and stage 5 leaves the token, the disk and the
  requests sent as the last attempt left them.
\<close>

theorem promise_settlement:
  assumes run: "criteoApiRequest e r c = (r', c', p)"
    and la: "last_attempt e r c = (cq, q)"
  shows "q \<noteq> Pending
       \<and> (\<forall>v. q = Resolved v \<longrightarrow>
            (\<exists>c0 rs. sent cq \<noteq> [] \<and> rq_path (last (sent cq)) = endpoint e @ path r \<and>
               transport e (length (sent cq) - 1) (last (sent cq)) = Inr rs \<and>
               apply_handler e (handler r) rs c0 = (cq, Resolved v))
          \<and> p = (if callback r \<and> \<not> callbackExecuted r
                 then (case callback_throws e (EvCallbackOk v) of
                         None \<Rightarrow> Resolved v | Some x \<Rightarrow> Rejected x)
                 else Resolved v)
          \<and> filter is_callback (new_events c c')
              = (if callback r \<and> \<not> callbackExecuted r then [EvCallbackOk v] else []))
       \<and> (\<forall>m. q = Rejected m \<longrightarrow>
            p = (if callback r \<and> \<not> callbackExecuted r then Pending else Rejected m)
          \<and> filter is_callback (new_events c c')
              = (if callback r \<and> \<not> callbackExecuted r then [EvCallbackErr m] else []))
       \<and> token c' = token cq \<and> files c' = files cq \<and> sent c' = sent cq"
proof -
  obtain c2 p2 where att: "attempt e r c = (c2, p2)" by (cases "attempt e r c")
  note a = attempt_facts[OF att]
  show ?thesis
  proof (cases "\<exists>err. p2 = Rejected err \<and> sublist ''401'' (error_toString err) \<and> \<not> retry r")
    case False
    then have nq: "\<And>err. p2 = Rejected err \<Longrightarrow>
        \<not> (sublist ''401'' (error_toString err) \<and> \<not> retry r)" by blast
    from la att False have l: "cq = c2" "q = p2"
      by (cases p2; auto simp: last_attempt_def)+
    from run_single[OF att nq] run have s5: "stage5 e r cq q = (r', c', p)" by (simp add: l)
    have g: "grows cq c'" using settle_stage_facts[OF s5] by simp
    have n: "filter is_callback (new_events c c') = filter is_callback (new_events cq c')"
      using new_events_append[OF a(2) g[unfolded l]] a(3) by (simp add: l)
    have h: "\<And>v. q = Resolved v \<Longrightarrow>
        \<exists>c0 rs. sent cq \<noteq> [] \<and> rq_path (last (sent cq)) = endpoint e @ path r \<and>
               transport e (length (sent cq) - 1) (last (sent cq)) = Inr rs \<and>
               apply_handler e (handler r) rs c0 = (cq, Resolved v)"
      using att attempt_handler[of e r c cq] by (simp add: l)
    show ?thesis
      using a(1) h stage5_exact[OF s5] by (simp add: n l)
  next
    case True
    then obtain err where p2: "p2 = Rejected err" and q401: "sublist ''401'' (error_toString err)"
      and nr: "\<not> retry r" by blast
    let ?r1 = "r\<lparr>retry := True\<rparr>"
    let ?c0 = "emit (EvRequeue (path r)) c2"
    from la att p2 q401 nr have att2: "attempt e ?r1 ?c0 = (cq, q)"
      by (simp add: last_attempt_def)
    note b = attempt_facts[OF att2]
    from run_requeued[OF att[unfolded p2] q401 nr] run
    have run2: "criteoApiRequest e ?r1 ?c0 = (r', c', p)" by simp
    have "criteoApiRequest e ?r1 ?c0 = stage5 e ?r1 cq q"
      using att2 by (rule run_single) simp
    with run2 have s5: "stage5 e ?r1 cq q = (r', c', p)" by simp
    have g: "grows cq c'" using settle_stage_facts[OF s5] by simp
    have g0: "grows c2 ?c0" by simp
    have g1: "grows ?c0 c'" using b(2) g by (rule grows_trans)
    have g2: "grows c2 c'" using g0 g1 by (rule grows_trans)
    have "new_events c c' = new_events c c2 @ new_events c2 ?c0 @ new_events ?c0 cq @ new_events cq c'"
      by (simp only: new_events_append[OF a(2) g2] new_events_append[OF g0 g1]
          new_events_append[OF b(2) g])
    then have n: "filter is_callback (new_events c c') = filter is_callback (new_events cq c')"
      using a(3) b(3) by simp
    have h: "\<And>v. q = Resolved v \<Longrightarrow>
        \<exists>c0 rs. sent cq \<noteq> [] \<and> rq_path (last (sent cq)) = endpoint e @ path r \<and>
               transport e (length (sent cq) - 1) (last (sent cq)) = Inr rs \<and>
               apply_handler e (handler r) rs c0 = (cq, Resolved v)"
      using att2 attempt_handler[of e ?r1 ?c0 cq] by simp
    show ?thesis
      using b(1) h stage5_exact[OF s5] by (simp add: n)
  qed
qed

text \<open>
  Three runs: a stale token, where the first execution is answered with 401 and the
  second one succeeds, with a callback that returns; a request that succeeds, with a
  callback that throws; a request that times out, without a callback.
\<close>

theorem promise_settlement_witness:
  \<open>(\<exists>r' c' cq.
      criteoApiRequest
        (sample_env (replies [Inr \<lparr>statusCode = 401, res_body = ''''\<rparr>,
           Inr \<lparr>statusCode = 200, res_body = ''{"access_token":"T1"}''\<rparr>,
           Inr \<lparr>statusCode = 200, res_body = ''{"data":[]}''\<rparr>]))
        (sample_request True) (sample_client (JStr ''T0''))
        = (r', c', Resolved (JObj [(''data'', JArr [])])) \<and>
      last_attempt
        (sample_env (replies [Inr \<lparr>statusCode = 401, res_body = ''''\<rparr>,
           Inr \<lparr>statusCode = 200, res_body = ''{"access_token":"T1"}''\<rparr>,
           Inr \<lparr>statusCode = 200, res_body = ''{"data":[]}''\<rparr>]))
        (sample_request True) (sample_client (JStr ''T0''))
        = (cq, Resolved (JObj [(''data'', JArr [])])) \<and>
      filter is_callback (new_events (sample_client (JStr ''T0'')) c')
        = [EvCallbackOk (JObj [(''data'', JArr [])])] \<and>
      sent c' = sent cq \<and> token c' = JStr ''T1'')
   \<and> (\<exists>r' c' cq.
      criteoApiRequest
        ((sample_env (replies [Inr \<lparr>statusCode = 200, res_body = ''{"data":[]}''\<rparr>]))
           \<lparr>callback_throws := (\<lambda>ev. Some ''boom'')\<rparr>)
        (sample_request True) (sample_client (JStr ''T0''))
        = (r', c', Rejected ''boom'') \<and>
      last_attempt
        ((sample_env (replies [Inr \<lparr>statusCode = 200, res_body = ''{"data":[]}''\<rparr>]))
           \<lparr>callback_throws := (\<lambda>ev. Some ''boom'')\<rparr>)
        (sample_request True) (sample_client (JStr ''T0''))
        = (cq, Resolved (JObj [(''data'', JArr [])])) \<and>
      filter is_callback (new_events (sample_client (JStr ''T0'')) c')
        = [EvCallbackOk (JObj [(''data'', JArr [])])])
   \<and> (\<exists>r' c' cq.
      criteoApiRequest (sample_env (replies [])) (sample_request False)
        (sample_client (JStr ''T0''))
        = (r', c', Rejected ''Request timed out after 12000 ms.'') \<and>
      last_attempt (sample_env (replies [])) (sample_request False)
        (sample_client (JStr ''T0''))
        = (cq, Rejected ''Request timed out after 12000 ms.'') \<and>
      filter is_callback (new_events (sample_client (JStr ''T0'')) c') = [])\<close>
proof -
  let ?e1 = \<open>sample_env (replies [Inr \<lparr>statusCode = 401, res_body = ''''\<rparr>,
           Inr \<lparr>statusCode = 200, res_body = ''{"access_token":"T1"}''\<rparr>,
           Inr \<lparr>statusCode = 200, res_body = ''{"data":[]}''\<rparr>])\<close>
  let ?e2 = \<open>(sample_env (replies [Inr \<lparr>statusCode = 200, res_body = ''{"data":[]}''\<rparr>]))
           \<lparr>callback_throws := (\<lambda>ev. Some ''boom'')\<rparr>\<close>
  let ?e3 = "sample_env (replies [])"
  let ?c = "sample_client (JStr ''T0'')"
  let ?v = "JObj [(''data'', JArr [])]"
  have due: "callback (sample_request True)" "\<not> callbackExecuted (sample_request True)"
    and nodue: "\<not> callback (sample_request False)"
    by (simp_all add: sample_request_def)
  have t1: "callback_throws ?e1 = (\<lambda>_. None)" and t2: "callback_throws ?e2 = (\<lambda>_. Some ''boom'')"
    by (simp_all add: sample_env_def)
  obtain r1 c1 p1 where run1: "criteoApiRequest ?e1 (sample_request True) ?c = (r1, c1, p1)"
    by (cases "criteoApiRequest ?e1 (sample_request True) ?c")
  obtain cq1 q1 where la1: "last_attempt ?e1 (sample_request True) ?c = (cq1, q1)"
    by (cases "last_attempt ?e1 (sample_request True) ?c")
  have "snd (last_attempt ?e1 (sample_request True) ?c) = Resolved ?v"
    "token (fst (last_attempt ?e1 (sample_request True) ?c)) = JStr ''T1''"
    by code_simp+
  then have q1: "q1 = Resolved ?v" and k1: "token cq1 = JStr ''T1''" by (simp_all add: la1)
  from promise_settlement[OF run1 la1] q1 due t1 k1
  have w1: "p1 = Resolved ?v \<and> filter is_callback (new_events ?c c1) = [EvCallbackOk ?v] \<and>
            sent c1 = sent cq1 \<and> token c1 = JStr ''T1''"
    by simp
  obtain r2 c2 p2 where run2: "criteoApiRequest ?e2 (sample_request True) ?c = (r2, c2, p2)"
    by (cases "criteoApiRequest ?e2 (sample_request True) ?c")
  obtain cq2 q2 where la2: "last_attempt ?e2 (sample_request True) ?c = (cq2, q2)"
    by (cases "last_attempt ?e2 (sample_request True) ?c")
  have "snd (last_attempt ?e2 (sample_request True) ?c) = Resolved ?v"
    by code_simp
  then have q2: "q2 = Resolved ?v" by (simp add: la2)
  from promise_settlement[OF run2 la2] q2 due t2
  have w2: "p2 = Rejected ''boom'' \<and> filter is_callback (new_events ?c c2) = [EvCallbackOk ?v]"
    by simp
  obtain r3 c3 p3 where run3: "criteoApiRequest ?e3 (sample_request False) ?c = (r3, c3, p3)"
    by (cases "criteoApiRequest ?e3 (sample_request False) ?c")
  obtain cq3 q3 where la3: "last_attempt ?e3 (sample_request False) ?c = (cq3, q3)"
    by (cases "last_attempt ?e3 (sample_request False) ?c")
  have "snd (last_attempt ?e3 (sample_request False) ?c)
      = Rejected ''Request timed out after 12000 ms.''"
    by code_simp
  then have q3: "q3 = Rejected ''Request timed out after 12000 ms.''" by (simp add: la3)
  from promise_settlement[OF run3 la3] q3 nodue
  have w3: "p3 = Rejected ''Request timed out after 12000 ms.'' \<and>
            filter is_callback (new_events ?c c3) = []"
    by simp
  from w1 w2 w3 q1 q2 q3 show ?thesis
    unfolding run1 run2 run3 la1 la2 la3 by simp
qed

end
